theory Spec2Isabelle
  imports Main "HOL-Library.AList"
begin

section \<open>Values of the embedding\<close>

text \<open>
  The backbone of \<^verbatim>\<open>vovnet39.py\<close> is a static description of a network: which
  framework modules are created, with which channel counts, and in which order they are
  applied. The embedding follows the tensors only by their size. A tensor is the size
  \<open>(N, C, H, W)\<close> of a four-dimensional array (the interface of the backbone), and
  every framework primitive is its size rule together with the checks that make it
  raise. The numeric contents of tensors and of the learned parameters (floating point
  arithmetic of the tensor runtime, the random weight initialisation at the end of
  \<^verbatim>\<open>VoVNet.__init__\<close>) are outside the embedding.

  Channel counts, block counts and layer counts are natural numbers. Python's
  \<^verbatim>\<open>range(n - 1)\<close> is empty for \<open>n = 0\<close>, which is what the truncating
  subtraction of \<open>nat\<close> gives in \<open>[0..<n - 1]\<close>.
\<close>

datatype py_error =
  RuntimeError | ValueError | IndexError | KeyError | NameError | AttributeError

datatype tensor = Tensor (batch: nat) (channels: nat) (height: nat) (width: nat)

text \<open>A raised exception ends the computation; \<open>and_then\<close> sequences two steps.\<close>

definition and_then :: "py_error + 'a \<Rightarrow> ('a \<Rightarrow> py_error + 'b) \<Rightarrow> py_error + 'b" where
  "and_then r f = (case r of Inl e \<Rightarrow> Inl e | Inr v \<Rightarrow> f v)"

subsection \<open>Decimal rendering of a number (\<^verbatim>\<open>str\<close>, \<^verbatim>\<open>%d\<close>, \<^verbatim>\<open>{}\<close>)\<close>

definition digit :: "nat \<Rightarrow> char" where
  "digit d = ''0123456789'' ! d"

fun str :: "nat \<Rightarrow> string" where
  "str n = (if n < 10 then [digit n] else str (n div 10) @ [digit (n mod 10)])"

declare str.simps [simp del]

subsection \<open>Ordered dictionaries of named children\<close>

text \<open>
  \<^verbatim>\<open>OrderedDict(pairs)\<close> and \<^verbatim>\<open>Module.add_module(name, m)\<close> store under a
  key: a key that is already present keeps its position and takes the new value, a new
  key is appended.
\<close>

definition OrderedDict :: "(string \<times> 'm) list \<Rightarrow> (string \<times> 'm) list" where
  "OrderedDict pairs = fold (\<lambda>(k, v) d. AList.update k v d) pairs []"

definition add_module :: "(string \<times> 'm) list \<Rightarrow> string \<Rightarrow> 'm \<Rightarrow> (string \<times> 'm) list" where
  "add_module modules name m = AList.update name m modules"

section \<open>The framework primitives, by size\<close>

datatype module =
    Conv2d (in_channels: nat) (out_channels: nat) (kernel_size: nat)
           (conv_stride: nat) (padding: nat) (groups: nat)
  | BatchNorm2d (num_features: nat)
  | ReLU (inplace: bool)
  | MaxPool2d (pool_kernel: nat) (pool_stride: nat) (pool_padding: nat) (ceil_mode: bool)

text \<open>
  A convolution without dilation maps an extent \<open>n\<close> to
  \<open>\<lfloor>(n + 2 p - k) / s\<rfloor> + 1\<close>. It raises on a stride of zero, on a weight with
  fewer output channels than groups, when the input does not have the channel count of
  its weight, and when the padded input is smaller than the kernel.
\<close>

definition conv_output_size :: "nat \<Rightarrow> nat \<Rightarrow> nat \<Rightarrow> nat \<Rightarrow> nat" where
  "conv_output_size n k s p = (n + 2 * p - k) div s + 1"

text \<open>
  The pooling size rule of the runtime, on integers as it is computed there (the division
  rounds towards minus infinity): in ceil mode the last window is dropped again when it
  would start beyond the input.
\<close>

definition pooling_output_shape :: "int \<Rightarrow> int \<Rightarrow> int \<Rightarrow> int \<Rightarrow> bool \<Rightarrow> int" where
  "pooling_output_shape inputSize kernelSize pad stride ceil =
     (let outputSize =
            (inputSize + 2 * pad - (kernelSize - 1) - 1 + (if ceil then stride - 1 else 0))
              div stride + 1
      in if ceil \<and> (outputSize - 1) * stride \<ge> inputSize + pad
         then outputSize - 1 else outputSize)"

text \<open>
  \<open>training\<close> is the mode flag that \<^verbatim>\<open>Module.train\<close> and \<^verbatim>\<open>Module.eval\<close> set
  on every submodule (it is set after construction). Batch normalisation in training mode
  refuses an input with a single value per channel, before anything else.
\<close>

fun module_forward :: "bool \<Rightarrow> module \<Rightarrow> tensor \<Rightarrow> py_error + tensor" where
  "module_forward training (Conv2d c_in c_out k s p g) x =
     (if s = 0 then Inl RuntimeError
      else if c_out < g then Inl RuntimeError
      else if channels x \<noteq> c_in then Inl RuntimeError
      else if height x + 2 * p < k \<or> width x + 2 * p < k then Inl RuntimeError
      else Inr (Tensor (batch x) c_out
                  (conv_output_size (height x) k s p) (conv_output_size (width x) k s p)))"
| "module_forward training (BatchNorm2d c) x =
     (if training \<and> batch x * height x * width x = 1 then Inl ValueError
      else if channels x \<noteq> c then Inl RuntimeError
      else Inr x)"
| "module_forward training (ReLU ip) x = Inr x"
| "module_forward training (MaxPool2d k s p ceil) x =
     (if s = 0 then Inl RuntimeError
      else
        let oh = pooling_output_shape (int (height x)) (int k) (int p) (int s) ceil;
            ow = pooling_output_shape (int (width x)) (int k) (int p) (int s) ceil
        in if oh < 1 \<or> ow < 1 then Inl RuntimeError
           else Inr (Tensor (batch x) (channels x) (nat oh) (nat ow)))"

text \<open>\<^verbatim>\<open>nn.Sequential\<close>: the children are applied in the order of the dictionary.\<close>

fun Sequential_forward ::
  "('m \<Rightarrow> tensor \<Rightarrow> py_error + tensor) \<Rightarrow> (string \<times> 'm) list \<Rightarrow> tensor \<Rightarrow> py_error + tensor"
where
  "Sequential_forward f [] x = Inr x"
| "Sequential_forward f (child # rest) x =
     (case f (snd child) x of
        Inl e \<Rightarrow> Inl e
      | Inr y \<Rightarrow> Sequential_forward f rest y)"

text \<open>
  \<^verbatim>\<open>torch.cat(ts, dim=1)\<close>: all tensors agree outside the channel axis, the channel
  counts add up. An empty list raises.
\<close>

fun torch_cat :: "tensor list \<Rightarrow> py_error + tensor" where
  "torch_cat [] = Inl RuntimeError"
| "torch_cat (t # ts) =
     (if list_all (\<lambda>u. batch u = batch t \<and> height u = height t \<and> width u = width t) ts
      then Inr (Tensor (batch t) (sum_list (map channels (t # ts))) (height t) (width t))
      else Inl RuntimeError)"

text \<open>
  Tensor addition broadcasts: two extents are compatible when they are equal or one of
  them is 1. Incompatible extents raise.
\<close>

definition broadcast :: "nat \<Rightarrow> nat \<Rightarrow> nat option" where
  "broadcast a b =
     (if a = b then Some a else if a = 1 then Some b else if b = 1 then Some a else None)"

definition tensor_add :: "tensor \<Rightarrow> tensor \<Rightarrow> py_error + tensor" where
  "tensor_add a b =
     (case (broadcast (batch a) (batch b), broadcast (channels a) (channels b),
            broadcast (height a) (height b), broadcast (width a) (width b)) of
        (Some n, Some c, Some h, Some w) \<Rightarrow> Inr (Tensor n c h w)
      | _ \<Rightarrow> Inl RuntimeError)"

section \<open>Conv-Norm-Act units\<close>

text \<open>
  \<^verbatim>\<open>conv3x3\<close> and \<^verbatim>\<open>conv1x1\<close> of the source, with the defaults of their
  signatures (\<open>stride = 1\<close>, \<open>groups = 1\<close>, \<open>kernel_size = 3\<close> or \<open>1\<close>,
  \<open>padding = 1\<close> or \<open>0\<close>) passed by the callers. The postfix is the rendered value
  that \<^verbatim>\<open>format\<close> inserts.
\<close>

definition conv3x3 ::
  "nat \<Rightarrow> nat \<Rightarrow> string \<Rightarrow> string \<Rightarrow> nat \<Rightarrow> nat \<Rightarrow> nat \<Rightarrow> nat \<Rightarrow> (string \<times> module) list"
where
  "conv3x3 in_ch out_ch module_name postfix stride grps ksize pad =
     [(module_name @ ''_'' @ postfix @ ''/conv'', Conv2d in_ch out_ch ksize stride pad grps),
      (module_name @ ''_'' @ postfix @ ''/norm'', BatchNorm2d out_ch),
      (module_name @ ''_'' @ postfix @ ''/relu'', ReLU True)]"

definition conv1x1 ::
  "nat \<Rightarrow> nat \<Rightarrow> string \<Rightarrow> string \<Rightarrow> nat \<Rightarrow> nat \<Rightarrow> nat \<Rightarrow> nat \<Rightarrow> (string \<times> module) list"
where
  "conv1x1 in_ch out_ch module_name postfix stride grps ksize pad =
     [(module_name @ ''_'' @ postfix @ ''/conv'', Conv2d in_ch out_ch ksize stride pad grps),
      (module_name @ ''_'' @ postfix @ ''/norm'', BatchNorm2d out_ch),
      (module_name @ ''_'' @ postfix @ ''/relu'', ReLU True)]"

section \<open>The OSA module\<close>

record OSA_module =
  identity :: bool
  layers :: "(string \<times> module) list list"
  concat_seq :: "(string \<times> module) list"

text \<open>
  The constructor loop appends one 3x3 unit per index and then feeds \<open>stage_ch\<close>
  channels to the next one; the state of the loop is the pair of \<open>in_channel\<close> and the
  module list.
\<close>

definition OSA_layers_step ::
  "nat \<Rightarrow> string \<Rightarrow> nat \<Rightarrow> nat \<times> (string \<times> module) list list
     \<Rightarrow> nat \<times> (string \<times> module) list list"
where
  "OSA_layers_step stage_ch module_name i st =
     (stage_ch,
      snd st @ [OrderedDict (conv3x3 (fst st) stage_ch module_name (str i) 1 1 3 1)])"

definition OSA_module_init ::
  "nat \<Rightarrow> nat \<Rightarrow> nat \<Rightarrow> nat \<Rightarrow> string \<Rightarrow> bool \<Rightarrow> OSA_module"
where
  "OSA_module_init in_ch stage_ch concat_ch layer_per_block module_name ident =
     (let st = fold (OSA_layers_step stage_ch module_name) [0..<layer_per_block] (in_ch, []);
          in_channel = in_ch + layer_per_block * stage_ch
      in \<lparr> identity = ident,
           layers = snd st,
           concat_seq = OrderedDict (conv1x1 in_channel concat_ch module_name ''concat'' 1 1 1 0) \<rparr>)"

text \<open>
  The forward loop: \<open>x\<close> runs through the units, every result is appended to
  \<open>output\<close>, which starts as \<open>[x]\<close>.
\<close>

fun OSA_layers_forward ::
  "bool \<Rightarrow> (string \<times> module) list list \<Rightarrow> tensor \<Rightarrow> tensor list
     \<Rightarrow> py_error + (tensor \<times> tensor list)"
where
  "OSA_layers_forward training [] x output = Inr (x, output)"
| "OSA_layers_forward training (layer # rest) x output =
     (case Sequential_forward (module_forward training) layer x of
        Inl e \<Rightarrow> Inl e
      | Inr y \<Rightarrow> OSA_layers_forward training rest y (output @ [y]))"

text \<open>Everything up to \<^verbatim>\<open>xt = self.concat(x)\<close>; the result is \<open>xt\<close>.\<close>

definition OSA_module_aggregate :: "bool \<Rightarrow> OSA_module \<Rightarrow> tensor \<Rightarrow> py_error + tensor" where
  "OSA_module_aggregate training m x =
     (case OSA_layers_forward training (layers m) x [x] of
        Inl e \<Rightarrow> Inl e
      | Inr (y, output) \<Rightarrow>
          (case torch_cat output of
             Inl e \<Rightarrow> Inl e
           | Inr c \<Rightarrow> Sequential_forward (module_forward training) (concat_seq m) c))"

definition OSA_module_forward :: "bool \<Rightarrow> OSA_module \<Rightarrow> tensor \<Rightarrow> py_error + tensor" where
  "OSA_module_forward training m x =
     (let identity_feat = x in
      case OSA_module_aggregate training m x of
        Inl e \<Rightarrow> Inl e
      | Inr xt \<Rightarrow> if identity m then tensor_add xt identity_feat else Inr xt)"

section \<open>The OSA stage\<close>

text \<open>
  A stage is an \<^verbatim>\<open>nn.Sequential\<close> whose children are a pooling layer or OSA
  modules, registered under their names with \<^verbatim>\<open>add_module\<close>.
\<close>

datatype stage_child = Layer module | OSA OSA_module

definition OSA_stage_step ::
  "nat \<Rightarrow> nat \<Rightarrow> nat \<Rightarrow> nat \<Rightarrow> nat \<Rightarrow> (string \<times> stage_child) list
     \<Rightarrow> (string \<times> stage_child) list"
where
  "OSA_stage_step stage_ch concat_ch layer_per_block stage_num i modules =
     (let module_name = ''OSA'' @ str stage_num @ ''_'' @ str (i + 2)
      in add_module modules module_name
           (OSA (OSA_module_init concat_ch stage_ch concat_ch layer_per_block module_name True)))"

definition OSA_stage_init ::
  "nat \<Rightarrow> nat \<Rightarrow> nat \<Rightarrow> nat \<Rightarrow> nat \<Rightarrow> nat \<Rightarrow> (string \<times> stage_child) list"
where
  "OSA_stage_init in_ch stage_ch concat_ch block_per_stage layer_per_block stage_num =
     (let modules0 =
            (if \<not> stage_num = 2
             then add_module [] ''Pooling'' (Layer (MaxPool2d 3 2 0 True))
             else []);
          module_name = ''OSA'' @ str stage_num @ ''_1'';
          modules1 =
            add_module modules0 module_name
              (OSA (OSA_module_init in_ch stage_ch concat_ch layer_per_block module_name False))
      in fold (OSA_stage_step stage_ch concat_ch layer_per_block stage_num)
           [0..<block_per_stage - 1] modules1)"

fun child_forward :: "bool \<Rightarrow> stage_child \<Rightarrow> tensor \<Rightarrow> py_error + tensor" where
  "child_forward training (Layer m) x = module_forward training m x"
| "child_forward training (OSA m) x = OSA_module_forward training m x"

definition OSA_stage_forward ::
  "bool \<Rightarrow> (string \<times> stage_child) list \<Rightarrow> tensor \<Rightarrow> py_error + tensor"
where
  "OSA_stage_forward training stage x = Sequential_forward (child_forward training) stage x"

section \<open>The backbone\<close>

text \<open>Python indexing \<^verbatim>\<open>xs[i]\<close> for \<open>i \<ge> 0\<close> and \<^verbatim>\<open>xs[-1]\<close>.\<close>

definition py_index :: "'a list \<Rightarrow> nat \<Rightarrow> py_error + 'a" where
  "py_index xs i = (if i < length xs then Inr (xs ! i) else Inl IndexError)"

definition py_last :: "'a list \<Rightarrow> py_error + 'a" where
  "py_last xs = (case xs of [] \<Rightarrow> Inl IndexError | _ \<Rightarrow> Inr (last xs))"

record VoVNet =
  stem :: "(string \<times> module) list"
  stage_names :: "string list"
  stages :: "(string \<times> (string \<times> stage_child) list) list"
  classifier :: "nat \<times> nat"
  training :: bool

text \<open>
  The loop over the four stage indices. Its state is \<open>stage_names\<close> and the stages
  registered so far; an index beyond one of the configuration lists raises.
\<close>

fun VoVNet_stages_loop ::
  "nat list \<Rightarrow> nat list \<Rightarrow> nat list \<Rightarrow> nat list \<Rightarrow> nat \<Rightarrow> nat list
     \<Rightarrow> string list \<times> (string \<times> (string \<times> stage_child) list) list
     \<Rightarrow> py_error + (string list \<times> (string \<times> (string \<times> stage_child) list) list)"
where
  "VoVNet_stages_loop in_ch_list config_stage_ch config_concat_ch block_per_stage
       layer_per_block [] st = Inr st"
| "VoVNet_stages_loop in_ch_list config_stage_ch config_concat_ch block_per_stage
       layer_per_block (i # is) st =
     (let name = ''stage'' @ str (i + 2) in
      and_then (py_index in_ch_list i) (\<lambda>in_ch.
      and_then (py_index config_stage_ch i) (\<lambda>stage_ch.
      and_then (py_index config_concat_ch i) (\<lambda>concat_ch.
      and_then (py_index block_per_stage i) (\<lambda>blocks.
        VoVNet_stages_loop in_ch_list config_stage_ch config_concat_ch block_per_stage
          layer_per_block is
          (fst st @ [name],
           add_module (snd st) name
             (OSA_stage_init in_ch stage_ch concat_ch blocks layer_per_block (i + 2))))))))"

definition VoVNet_init ::
  "nat list \<Rightarrow> nat list \<Rightarrow> nat list \<Rightarrow> nat \<Rightarrow> nat \<Rightarrow> py_error + VoVNet"
where
  "VoVNet_init config_stage_ch config_concat_ch block_per_stage layer_per_block num_classes =
     (let stem0 = conv3x3 3 64 ''stem'' ''1'' 2 1 3 1;
          stem1 = stem0 @ conv3x3 64 64 ''stem'' ''2'' 1 1 3 1;
          stem2 = stem1 @ conv3x3 64 128 ''stem'' ''3'' 2 1 3 1;
          stem_out_ch = [128];
          in_ch_list = stem_out_ch @ butlast config_concat_ch
      in case VoVNet_stages_loop in_ch_list config_stage_ch config_concat_ch block_per_stage
                layer_per_block [0..<4] ([], []) of
           Inl e \<Rightarrow> Inl e
         | Inr st \<Rightarrow>
             (case py_last config_concat_ch of
                Inl e \<Rightarrow> Inl e
              | Inr c \<Rightarrow>
                  Inr \<lparr> stem = OrderedDict stem2,
                        stage_names = fst st,
                        stages = snd st,
                        classifier = (c, num_classes),
                        training = True \<rparr>))"

text \<open>
  \<^verbatim>\<open>self.stage2(x)\<close> and its siblings: the attribute is the child registered under
  that name.
\<close>

definition call_stage :: "VoVNet \<Rightarrow> string \<Rightarrow> tensor \<Rightarrow> py_error + tensor" where
  "call_stage self name x =
     (case map_of (stages self) name of
        None \<Rightarrow> Inl AttributeError
      | Some stage \<Rightarrow> OSA_stage_forward (training self) stage x)"

definition VoVNet_forward :: "VoVNet \<Rightarrow> tensor \<Rightarrow> py_error + (string \<rightharpoonup> tensor)" where
  "VoVNet_forward self x =
     (let outputs = Map.empty in
      and_then (Sequential_forward (module_forward (training self)) (stem self) x) (\<lambda>x0.
      and_then (call_stage self ''stage2'' x0) (\<lambda>x2.
      let outputs = outputs(''res2'' \<mapsto> x2) in
      and_then (call_stage self ''stage3'' x2) (\<lambda>x3.
      let outputs = outputs(''res3'' \<mapsto> x3) in
      and_then (call_stage self ''stage4'' x3) (\<lambda>x4.
      let outputs = outputs(''res4'' \<mapsto> x4) in
      and_then (call_stage self ''stage5'' x4) (\<lambda>x5.
      let outputs = outputs(''res5'' \<mapsto> x5) in
      Inr outputs))))))"

datatype ShapeSpec = ShapeSpec (spec_channels: nat) (spec_stride: nat)

definition VoVNet_output_shape :: "VoVNet \<Rightarrow> (string \<rightharpoonup> ShapeSpec)" where
  "VoVNet_output_shape self =
     map_of [(''res2'', ShapeSpec 256 4),
             (''res3'', ShapeSpec 512 8),
             (''res4'', ShapeSpec 768 16),
             (''res5'', ShapeSpec 1024 32)]"

section \<open>The builders\<close>

definition model_urls :: "(string \<times> string) list" where
  "model_urls =
     [(''vovnet39'', ''https://dl.dropbox.com/s/1lnzsgnixd8gjra/vovnet39_torchvision.pth?dl=1''),
      (''vovnet57'', ''https://dl.dropbox.com/s/6bfu9gstbwfw31m/vovnet57_torchvision.pth?dl=1'')]"

text \<open>
  The names that the module binds at its top level: its imports, its assignments and its
  definitions. A global name outside this list (and outside the builtins, which hold
  none of the names used here) raises \<^verbatim>\<open>NameError\<close> when it is read.
\<close>

definition module_globals :: "string list" where
  "module_globals =
     [''torch'', ''nn'', ''F'', ''OrderedDict'', ''BACKBONE_REGISTRY'', ''Backbone'',
      ''ShapeSpec'', ''__all__'', ''model_urls'', ''conv3x3'', ''conv1x1'', ''_OSA_module'',
      ''_OSA_stage'', ''VoVNet'', ''_vovnet'', ''vovnet57'', ''vovnet39'', ''vovnet27_slim'',
      ''build_vovnet39_backbone'']"

text \<open>
  \<^verbatim>\<open>_vovnet\<close>. The keyword arguments that the builders pass on are the optional
  \<open>num_classes\<close> (default 1000). In the call
  \<^verbatim>\<open>load_state_dict_from_url(model_urls[arch], progress=progress)\<close> Python reads the
  callee first and its arguments afterwards. What the callee would do when bound
  (fetching the parameters and loading them into the model) belongs to the framework and
  is the parameter \<open>loader\<close>.
\<close>

definition vovnet ::
  "(string \<Rightarrow> bool \<Rightarrow> VoVNet \<Rightarrow> py_error + VoVNet) \<Rightarrow> string \<Rightarrow> nat list \<Rightarrow> nat list \<Rightarrow> nat list
     \<Rightarrow> nat \<Rightarrow> bool \<Rightarrow> bool \<Rightarrow> nat option \<Rightarrow> py_error + VoVNet"
where
  "vovnet loader arch config_stage_ch config_concat_ch block_per_stage layer_per_block
       pretrained progress kwargs =
     (case VoVNet_init config_stage_ch config_concat_ch block_per_stage layer_per_block
             (case kwargs of None \<Rightarrow> 1000 | Some num_classes \<Rightarrow> num_classes) of
        Inl e \<Rightarrow> Inl e
      | Inr model \<Rightarrow>
          if pretrained then
            (if ''load_state_dict_from_url'' \<notin> set module_globals then Inl NameError
             else case map_of model_urls arch of
                    None \<Rightarrow> Inl KeyError
                  | Some url \<Rightarrow> loader url progress model)
          else Inr model)"

definition vovnet57 ::
  "(string \<Rightarrow> bool \<Rightarrow> VoVNet \<Rightarrow> py_error + VoVNet) \<Rightarrow> bool \<Rightarrow> bool \<Rightarrow> nat option
     \<Rightarrow> py_error + VoVNet"
where
  "vovnet57 loader pretrained progress kwargs =
     vovnet loader ''vovnet57'' [128, 160, 192, 224] [256, 512, 768, 1024]
       [1, 1, 4, 3] 5 pretrained progress kwargs"

definition vovnet39 ::
  "(string \<Rightarrow> bool \<Rightarrow> VoVNet \<Rightarrow> py_error + VoVNet) \<Rightarrow> bool \<Rightarrow> bool \<Rightarrow> nat option
     \<Rightarrow> py_error + VoVNet"
where
  "vovnet39 loader pretrained progress kwargs =
     vovnet loader ''vovnet39'' [128, 160, 192, 224] [256, 512, 768, 1024]
       [1, 1, 2, 2] 5 pretrained progress kwargs"

definition vovnet27_slim ::
  "(string \<Rightarrow> bool \<Rightarrow> VoVNet \<Rightarrow> py_error + VoVNet) \<Rightarrow> bool \<Rightarrow> bool \<Rightarrow> nat option
     \<Rightarrow> py_error + VoVNet"
where
  "vovnet27_slim loader pretrained progress kwargs =
     vovnet loader ''vovnet27_slim'' [64, 80, 96, 112] [128, 256, 384, 512]
       [1, 1, 1, 1] 5 pretrained progress kwargs"

definition build_vovnet39_backbone ::
  "(string \<Rightarrow> bool \<Rightarrow> VoVNet \<Rightarrow> py_error + VoVNet) \<Rightarrow> 'cfg \<Rightarrow> 'shape \<Rightarrow> py_error + VoVNet"
where
  "build_vovnet39_backbone loader cfg input_shape = vovnet39 loader False True None"

section \<open>Notions used in the statements\<close>

text \<open>
  Batch normalisation accepts a batch of \<open>n\<close> maps of extent \<open>h\<close> by \<open>w\<close>: outside
  training mode always, in training mode when there is more than one value per channel.
\<close>

definition bn_ok :: "bool \<Rightarrow> nat \<Rightarrow> nat \<Rightarrow> nat \<Rightarrow> bool" where
  "bn_ok tr n h w = (\<not> (tr \<and> n * h * w = 1))"

text \<open>The OSA modules among the children of a stage, in order.\<close>

fun OSA_modules :: "(string \<times> stage_child) list \<Rightarrow> OSA_module list" where
  "OSA_modules [] = []"
| "OSA_modules ((name, Layer l) # rest) = OSA_modules rest"
| "OSA_modules ((name, OSA m) # rest) = m # OSA_modules rest"

text \<open>
  The names that \<^verbatim>\<open>_OSA_stage\<close> gives its modules:
  \<^verbatim>\<open>f'OSA{stage_num}_1'\<close> and \<^verbatim>\<open>f'OSA{stage_num}_{i + 2}'\<close>.
\<close>

definition OSA_name :: "nat \<Rightarrow> nat \<Rightarrow> string" where
  "OSA_name stage_num j = ''OSA'' @ str stage_num @ ''_'' @ str j"

text \<open>The list that \<^verbatim>\<open>VoVNet.__init__\<close> collects in \<open>stem\<close>.\<close>

definition stem_modules :: "(string \<times> module) list" where
  "stem_modules =
     conv3x3 3 64 ''stem'' ''1'' 2 1 3 1 @ conv3x3 64 64 ''stem'' ''2'' 1 1 3 1
       @ conv3x3 64 128 ''stem'' ''3'' 2 1 3 1"

text \<open>\<^verbatim>\<open>Module.train(mode)\<close>; \<^verbatim>\<open>Module.eval()\<close> is \<open>train False\<close>.\<close>

definition train :: "bool \<Rightarrow> VoVNet \<Rightarrow> VoVNet" where
  "train mode self = self\<lparr>training := mode\<rparr>"

section \<open>The forward pass on a store of tensors\<close>

text \<open>
  A second reading of the same forward pass, for what it does to memory. Tensors live in
  a store, a list of values indexed by address; what a value is stays open (the type
  \<open>'v\<close>). A module receives the address of its input and returns the address of its
  result. The framework's operations are the fields of \<open>runtime\<close>: functions of the
  values they read, of the parameters of the layer (\<open>'w\<close>, looked up by the path of the
  layer in the module tree) and, for batch normalisation when the network is not being
  trained, of the running statistics of the layer (\<open>'s\<close>). Convolution, normalisation,
  pooling, concatenation and addition put their result into a new cell;
  \<^verbatim>\<open>nn.ReLU(inplace=True)\<close> overwrites the cell of its input. Batch normalisation of
  a network that is being trained counts the batch and, when it succeeds, updates the
  running statistics of its layer.
\<close>

record ('v, 's) state =
  store :: "'v list"
  buffers :: "string list \<Rightarrow> 's"

record ('v, 'w, 's) runtime =
  conv2d :: "module \<Rightarrow> 'w \<Rightarrow> 'v \<Rightarrow> py_error + 'v"
  batch_norm_batch :: "module \<Rightarrow> 'w \<Rightarrow> 'v \<Rightarrow> py_error + 'v"
  batch_norm_running :: "module \<Rightarrow> 'w \<Rightarrow> 's \<Rightarrow> 'v \<Rightarrow> py_error + 'v"
  count_batch :: "'s \<Rightarrow> 's"
  update_stats :: "'s \<Rightarrow> 'v \<Rightarrow> 's"
  relu :: "'v \<Rightarrow> 'v"
  max_pool2d :: "module \<Rightarrow> 'v \<Rightarrow> py_error + 'v"
  cat :: "'v list \<Rightarrow> py_error + 'v"
  add :: "'v \<Rightarrow> 'v \<Rightarrow> py_error + 'v"

text \<open>A new cell for a result, or the exception of the operation.\<close>

definition new_cell ::
  "py_error + 'v \<Rightarrow> ('v, 's) state \<Rightarrow> (py_error + nat) \<times> ('v, 's) state"
where
  "new_cell r st =
     (case r of
        Inl e \<Rightarrow> (Inl e, st)
      | Inr y \<Rightarrow> (Inr (length (store st)), st\<lparr>store := store st @ [y]\<rparr>))"

text \<open>Sequencing: an exception ends the run and leaves the state as it is by then.\<close>

definition then_run ::
  "(py_error + 'a) \<times> ('v, 's) state \<Rightarrow> ('a \<Rightarrow> ('v, 's) state \<Rightarrow> (py_error + 'b) \<times> ('v, 's) state)
     \<Rightarrow> (py_error + 'b) \<times> ('v, 's) state"
where
  "then_run r f = (case fst r of Inl e \<Rightarrow> (Inl e, snd r) | Inr b \<Rightarrow> f b (snd r))"

fun module_run ::
  "('v, 'w, 's) runtime \<Rightarrow> (string list \<Rightarrow> 'w) \<Rightarrow> bool \<Rightarrow> string list \<Rightarrow> module \<Rightarrow> nat
     \<Rightarrow> ('v, 's) state \<Rightarrow> (py_error + nat) \<times> ('v, 's) state"
where
  "module_run K params mode path (Conv2d c_in c_out k s p g) a st =
     new_cell (conv2d K (Conv2d c_in c_out k s p g) (params path) (store st ! a)) st"
| "module_run K params mode path (BatchNorm2d c) a st =
     (if mode then
        (let st1 = st\<lparr>buffers := (buffers st)(path := count_batch K (buffers st path))\<rparr> in
         case batch_norm_batch K (BatchNorm2d c) (params path) (store st ! a) of
           Inl e \<Rightarrow> (Inl e, st1)
         | Inr y \<Rightarrow>
             new_cell (Inr y)
               (st1\<lparr>buffers :=
                  (buffers st1)(path := update_stats K (buffers st1 path) (store st ! a))\<rparr>))
      else
        new_cell (batch_norm_running K (BatchNorm2d c) (params path) (buffers st path)
                    (store st ! a)) st)"
| "module_run K params mode path (ReLU ip) a st =
     (if ip then (Inr a, st\<lparr>store := (store st)[a := relu K (store st ! a)]\<rparr>)
      else new_cell (Inr (relu K (store st ! a))) st)"
| "module_run K params mode path (MaxPool2d k s p ceil) a st =
     new_cell (max_pool2d K (MaxPool2d k s p ceil) (store st ! a)) st"

text \<open>\<^verbatim>\<open>nn.Sequential\<close>; a child's path is the path of the container and its key.\<close>

fun Sequential_run ::
  "(string list \<Rightarrow> 'm \<Rightarrow> nat \<Rightarrow> ('v, 's) state \<Rightarrow> (py_error + nat) \<times> ('v, 's) state)
     \<Rightarrow> string list \<Rightarrow> (string \<times> 'm) list \<Rightarrow> nat \<Rightarrow> ('v, 's) state
     \<Rightarrow> (py_error + nat) \<times> ('v, 's) state"
where
  "Sequential_run f path [] a st = (Inr a, st)"
| "Sequential_run f path (child # rest) a st =
     then_run (f (path @ [fst child]) (snd child) a st) (Sequential_run f path rest)"

text \<open>
  The loop of \<^verbatim>\<open>_OSA_module.forward\<close>; the units of the \<^verbatim>\<open>ModuleList\<close> are
  keyed by their index.
\<close>

fun OSA_layers_run ::
  "('v, 'w, 's) runtime \<Rightarrow> (string list \<Rightarrow> 'w) \<Rightarrow> bool \<Rightarrow> string list
     \<Rightarrow> (string \<times> module) list list \<Rightarrow> nat \<Rightarrow> nat \<Rightarrow> nat list \<Rightarrow> ('v, 's) state
     \<Rightarrow> (py_error + nat \<times> nat list) \<times> ('v, 's) state"
where
  "OSA_layers_run K params mode path [] i x output st = (Inr (x, output), st)"
| "OSA_layers_run K params mode path (layer # rest) i x output st =
     then_run
       (Sequential_run (module_run K params mode) (path @ [''layers'', str i]) layer x st)
       (\<lambda>y. OSA_layers_run K params mode path rest (Suc i) y (output @ [y]))"

definition OSA_module_run ::
  "('v, 'w, 's) runtime \<Rightarrow> (string list \<Rightarrow> 'w) \<Rightarrow> bool \<Rightarrow> string list \<Rightarrow> OSA_module \<Rightarrow> nat
     \<Rightarrow> ('v, 's) state \<Rightarrow> (py_error + nat) \<times> ('v, 's) state"
where
  "OSA_module_run K params mode path m x st =
     (let identity_feat = x in
      then_run (OSA_layers_run K params mode path (layers m) 0 x [x] st) (\<lambda>(y, output) st1.
      then_run (new_cell (cat K (map (\<lambda>c. store st1 ! c) output)) st1) (\<lambda>c st2.
      then_run (Sequential_run (module_run K params mode) (path @ [''concat''])
                  (concat_seq m) c st2) (\<lambda>xt st3.
      if identity m
      then new_cell (add K (store st3 ! xt) (store st3 ! identity_feat)) st3
      else (Inr xt, st3)))))"

fun child_run ::
  "('v, 'w, 's) runtime \<Rightarrow> (string list \<Rightarrow> 'w) \<Rightarrow> bool \<Rightarrow> string list \<Rightarrow> stage_child \<Rightarrow> nat
     \<Rightarrow> ('v, 's) state \<Rightarrow> (py_error + nat) \<times> ('v, 's) state"
where
  "child_run K params mode path (Layer m) x st = module_run K params mode path m x st"
| "child_run K params mode path (OSA m) x st = OSA_module_run K params mode path m x st"

definition call_stage_run ::
  "('v, 'w, 's) runtime \<Rightarrow> (string list \<Rightarrow> 'w) \<Rightarrow> VoVNet \<Rightarrow> string \<Rightarrow> nat
     \<Rightarrow> ('v, 's) state \<Rightarrow> (py_error + nat) \<times> ('v, 's) state"
where
  "call_stage_run K params self name x st =
     (case map_of (stages self) name of
        None \<Rightarrow> (Inl AttributeError, st)
      | Some stage \<Rightarrow> Sequential_run (child_run K params (training self)) [name] stage x st)"

definition VoVNet_run ::
  "('v, 'w, 's) runtime \<Rightarrow> (string list \<Rightarrow> 'w) \<Rightarrow> VoVNet \<Rightarrow> nat
     \<Rightarrow> ('v, 's) state \<Rightarrow> (py_error + (string \<rightharpoonup> nat)) \<times> ('v, 's) state"
where
  "VoVNet_run K params self x st =
     (let outputs = Map.empty in
      then_run (Sequential_run (module_run K params (training self)) [''stem''] (stem self) x st)
        (\<lambda>x0 st0.
      then_run (call_stage_run K params self ''stage2'' x0 st0) (\<lambda>x2 st2.
      let outputs = outputs(''res2'' \<mapsto> x2) in
      then_run (call_stage_run K params self ''stage3'' x2 st2) (\<lambda>x3 st3.
      let outputs = outputs(''res3'' \<mapsto> x3) in
      then_run (call_stage_run K params self ''stage4'' x3 st3) (\<lambda>x4 st4.
      let outputs = outputs(''res4'' \<mapsto> x4) in
      then_run (call_stage_run K params self ''stage5'' x4 st4) (\<lambda>x5 st5.
      let outputs = outputs(''res5'' \<mapsto> x5) in
      (Inr outputs, st5)))))))"

text \<open>The tensors that the result of a run refers to, read from a state.\<close>

definition fetch ::
  "('v, 's) state \<Rightarrow> py_error + (string \<rightharpoonup> nat) \<Rightarrow> py_error + (string \<rightharpoonup> 'v)"
where
  "fetch st r =
     (case r of
        Inl e \<Rightarrow> Inl e
      | Inr outputs \<Rightarrow> Inr (\<lambda>k. map_option (\<lambda>b. store st ! b) (outputs k)))"

text \<open>
  What the proofs below say about a run \<open>F\<close> from an input address: the store only
  grows, cells that were there keep their value; without training the running statistics
  stay as they are; and the result is the function \<open>f\<close> of the value of the input and,
  without training, of the running statistics.
\<close>

definition extends :: "('v, 's) state \<Rightarrow> ('v, 's) state \<Rightarrow> bool" where
  "extends st st' = (\<exists>zs. store st' = store st @ zs)"

definition visible :: "bool \<Rightarrow> (string list \<Rightarrow> 's) \<Rightarrow> (string list \<Rightarrow> 's) option" where
  "visible mode bufs = (if mode then None else Some bufs)"

definition computes ::
  "bool \<Rightarrow> (nat \<Rightarrow> ('v, 's) state \<Rightarrow> (py_error + nat) \<times> ('v, 's) state)
     \<Rightarrow> ((string list \<Rightarrow> 's) option \<Rightarrow> 'v \<Rightarrow> py_error + 'v) \<Rightarrow> bool"
where
  "computes mode F f =
     (\<forall>a st. a < length (store st) \<longrightarrow>
        extends st (snd (F a st))
      \<and> (\<not> mode \<longrightarrow> buffers (snd (F a st)) = buffers st)
      \<and> (\<forall>e. f (visible mode (buffers st)) (store st ! a) = Inl e \<longrightarrow> fst (F a st) = Inl e)
      \<and> (\<forall>v. f (visible mode (buffers st)) (store st ! a) = Inr v \<longrightarrow>
             (\<exists>b. fst (F a st) = Inr b \<and> b < length (store (snd (F a st)))
                \<and> store (snd (F a st)) ! b = v)))"

definition functional ::
  "bool \<Rightarrow> (nat \<Rightarrow> ('v, 's) state \<Rightarrow> (py_error + nat) \<times> ('v, 's) state) \<Rightarrow> bool"
where
  "functional mode F = (\<exists>f. computes mode F f)"

definition norm_value ::
  "('v, 'w, 's) runtime \<Rightarrow> (string list \<Rightarrow> 'w) \<Rightarrow> string list \<Rightarrow> module
     \<Rightarrow> (string list \<Rightarrow> 's) option \<Rightarrow> 'v \<Rightarrow> py_error + 'v"
where
  "norm_value K params path m vis v =
     (case vis of
        None \<Rightarrow> batch_norm_batch K m (params path) v
      | Some bufs \<Rightarrow> batch_norm_running K m (params path) (bufs path) v)"

definition unit_value ::
  "('v, 'w, 's) runtime \<Rightarrow> (string list \<Rightarrow> 'w) \<Rightarrow> string list \<Rightarrow> (string \<times> module) list
     \<Rightarrow> (string list \<Rightarrow> 's) option \<Rightarrow> 'v \<Rightarrow> py_error + 'v"
where
  "unit_value K params path unit vis v =
     and_then (conv2d K (snd (unit ! 0)) (params (path @ [fst (unit ! 0)])) v) (\<lambda>c.
     and_then (norm_value K params (path @ [fst (unit ! 1)]) (snd (unit ! 1)) vis c) (\<lambda>b.
     Inr (relu K b)))"

definition computes_list ::
  "bool \<Rightarrow> (nat \<Rightarrow> nat list \<Rightarrow> ('v, 's) state \<Rightarrow> (py_error + nat \<times> nat list) \<times> ('v, 's) state)
     \<Rightarrow> ((string list \<Rightarrow> 's) option \<Rightarrow> 'v \<Rightarrow> py_error + 'v list) \<Rightarrow> bool"
where
  "computes_list mode F g =
     (\<forall>x outp st. x < length (store st) \<longrightarrow>
        extends st (snd (F x outp st))
      \<and> (\<not> mode \<longrightarrow> buffers (snd (F x outp st)) = buffers st)
      \<and> (\<forall>e. g (visible mode (buffers st)) (store st ! x) = Inl e \<longrightarrow> fst (F x outp st) = Inl e)
      \<and> (\<forall>vs. g (visible mode (buffers st)) (store st ! x) = Inr vs \<longrightarrow>
             (\<exists>y outs. fst (F x outp st) = Inr (y, outp @ outs)
                \<and> (\<forall>c \<in> set outs. c < length (store (snd (F x outp st))))
                \<and> map (\<lambda>c. store (snd (F x outp st)) ! c) outs = vs)))"

text \<open>
  A chain of steps, each applied to the result of the step before it, that records the
  address of every result: the shape of the loop of \<^verbatim>\<open>_OSA_module.forward\<close> and of
  the four stages in \<^verbatim>\<open>VoVNet.forward\<close>.
\<close>

fun record_run ::
  "(nat \<Rightarrow> ('v, 's) state \<Rightarrow> (py_error + nat) \<times> ('v, 's) state) list \<Rightarrow> nat \<Rightarrow> nat list
     \<Rightarrow> ('v, 's) state \<Rightarrow> (py_error + nat \<times> nat list) \<times> ('v, 's) state"
where
  "record_run [] x outp st = (Inr (x, outp), st)"
| "record_run (F # Fs) x outp st = then_run (F x st) (\<lambda>y. record_run Fs y (outp @ [y]))"

definition feature_dict :: "'a list \<Rightarrow> (string \<rightharpoonup> 'a)" where
  "feature_dict xs = map_of (zip [''res2'', ''res3'', ''res4'', ''res5''] xs)"

section \<open>Names and dictionaries\<close>

lemma digit_inject: "a < 10 \<Longrightarrow> b < 10 \<Longrightarrow> digit a = digit b \<Longrightarrow> a = b"
proof -
  assume a: "a < 10" and b: "b < 10" and e: "digit a = digit b"
  have A: "a \<in> {0,1,2,3,4,5,6,7,8,9}" using a by auto
  have B: "b \<in> {0,1,2,3,4,5,6,7,8,9}" using b by auto
  from A B e show ?thesis unfolding digit_def by auto
qed

lemma str_nonempty: "str n \<noteq> []"
  by (subst str.simps) simp

lemma str_inject: "str m = str n \<Longrightarrow> m = n"
proof (induction m arbitrary: n rule: str.induct)
  case (1 m)
  show ?case
  proof (cases "m < 10")
    case True
    note m = this
    show ?thesis
    proof (cases "n < 10")
      case True
      with m "1.prems" show ?thesis
        by (subst (asm) str.simps, subst (asm) (2) str.simps) (simp add: digit_inject)
    next
      case False
      with m "1.prems" str_nonempty [of "n div 10"] show ?thesis
        by (subst (asm) str.simps, subst (asm) (2) str.simps) simp
    qed
  next
    case False
    note m = this
    show ?thesis
    proof (cases "n < 10")
      case True
      with m "1.prems" str_nonempty [of "m div 10"] show ?thesis
        by (subst (asm) str.simps, subst (asm) (2) str.simps) simp
    next
      case False
      from m False "1.prems" have e: "str (m div 10) @ [digit (m mod 10)] = str (n div 10) @ [digit (n mod 10)]"
        by (subst (asm) str.simps, subst (asm) (2) str.simps) simp
      then have "str (m div 10) = str (n div 10)" and d: "digit (m mod 10) = digit (n mod 10)"
        by simp_all
      with "1.IH" m have "m div 10 = n div 10" by blast
      moreover from d have "m mod 10 = n mod 10" by (intro digit_inject) simp_all
      ultimately show ?thesis by (metis div_mult_mod_eq)
    qed
  qed
qed

lemma update_fresh: "k \<notin> fst ` set al \<Longrightarrow> AList.update k v al = al @ [(k, v)]"
  by (induction al) auto

lemma fold_update_distinct:
  "distinct (map fst (acc @ kvs)) \<Longrightarrow>
   fold (\<lambda>(k, v) d. AList.update k v d) kvs acc = acc @ kvs"
proof (induction kvs arbitrary: acc)
  case Nil
  then show ?case by simp
next
  case (Cons kv kvs)
  obtain k v where kv: "kv = (k, v)" by (cases kv)
  from Cons.prems kv have fresh: "k \<notin> fst ` set acc" by auto
  from Cons.prems kv have "distinct (map fst ((acc @ [(k, v)]) @ kvs))" by simp
  from Cons.IH [OF this] fresh kv show ?case by (simp add: update_fresh)
qed

lemma OrderedDict_distinct: "distinct (map fst kvs) \<Longrightarrow> OrderedDict kvs = kvs"
  unfolding OrderedDict_def using fold_update_distinct [of "[]" kvs] by simp

lemma OrderedDict_conv3x3 [simp]:
  "OrderedDict (conv3x3 c_in c_out name postfix s g k p) = conv3x3 c_in c_out name postfix s g k p"
  by (rule OrderedDict_distinct) (simp add: conv3x3_def)

lemma OrderedDict_conv1x1 [simp]:
  "OrderedDict (conv1x1 c_in c_out name postfix s g k p) = conv1x1 c_in c_out name postfix s g k p"
  by (rule OrderedDict_distinct) (simp add: conv1x1_def)

section \<open>Conv-Norm-Act units and the OSA module\<close>

lemma conv_size_same: "0 < h \<Longrightarrow> conv_output_size h 3 1 1 = h"
  by (simp add: conv_output_size_def)

lemma conv_size_point: "0 < h \<Longrightarrow> conv_output_size h 1 1 0 = h"
  by (simp add: conv_output_size_def)

lemma conv_size_half: "0 < h \<Longrightarrow> conv_output_size h 3 2 1 = (h + 1) div 2"
  by (simp add: conv_output_size_def)

lemma unit3_forward:
  assumes "0 < s" "0 < c_out" "0 < h" "0 < w"
    and "bn_ok tr n (conv_output_size h 3 s 1) (conv_output_size w 3 s 1)"
  shows "Sequential_forward (module_forward tr) (conv3x3 c_in c_out name postfix s 1 3 1)
           (Tensor n c_in h w) =
         Inr (Tensor n c_out (conv_output_size h 3 s 1) (conv_output_size w 3 s 1))"
  using assms by (simp add: conv3x3_def bn_ok_def)

lemma unit3_same:
  assumes "0 < c_out" "0 < h" "0 < w" "bn_ok tr n h w"
  shows "Sequential_forward (module_forward tr) (conv3x3 c_in c_out name postfix 1 1 3 1)
           (Tensor n c_in h w) = Inr (Tensor n c_out h w)"
  using assms unit3_forward [of 1 c_out h w tr n c_in name postfix]
  by (simp only: conv_size_same)

lemma unit1_forward:
  assumes "0 < c_out" "0 < h" "0 < w" "bn_ok tr n h w"
  shows "Sequential_forward (module_forward tr) (conv1x1 c_in c_out name postfix 1 1 1 0)
           (Tensor n c_in h w) = Inr (Tensor n c_out h w)"
  using assms by (simp add: conv1x1_def bn_ok_def conv_output_size_def)

lemma OSA_layers_fold:
  "fold (OSA_layers_step stage_ch name) [0..<L] (in_ch, []) =
     (if L = 0 then in_ch else stage_ch,
      map (\<lambda>i. conv3x3 (if i = 0 then in_ch else stage_ch) stage_ch name (str i) 1 1 3 1) [0..<L])"
  by (induction L) (simp_all add: OSA_layers_step_def)

lemma OSA_module_init_layers:
  "layers (OSA_module_init in_ch stage_ch concat_ch L name ident) =
     map (\<lambda>i. conv3x3 (if i = 0 then in_ch else stage_ch) stage_ch name (str i) 1 1 3 1) [0..<L]"
  by (simp add: OSA_module_init_def OSA_layers_fold Let_def)

lemma OSA_module_init_concat:
  "concat_seq (OSA_module_init in_ch stage_ch concat_ch L name ident) =
     conv1x1 (in_ch + L * stage_ch) concat_ch name ''concat'' 1 1 1 0"
  by (simp add: OSA_module_init_def Let_def)

lemma OSA_module_init_identity:
  "identity (OSA_module_init in_ch stage_ch concat_ch L name ident) = ident"
  by (simp add: OSA_module_init_def Let_def)

lemma OSA_layers_forward_same:
  assumes "0 < stage_ch" "0 < h" "0 < w" "bn_ok tr n h w"
  shows "OSA_layers_forward tr (map (\<lambda>i. conv3x3 stage_ch stage_ch name (p i) 1 1 3 1) js)
           (Tensor n stage_ch h w) out =
         Inr (Tensor n stage_ch h w, out @ replicate (length js) (Tensor n stage_ch h w))"
proof (induction js arbitrary: out)
  case Nil
  show ?case by simp
next
  case (Cons j js)
  from assms have "Sequential_forward (module_forward tr) (conv3x3 stage_ch stage_ch name (p j) 1 1 3 1)
      (Tensor n stage_ch h w) = Inr (Tensor n stage_ch h w)"
    by (rule unit3_same)
  then show ?case using Cons.IH [of "out @ [Tensor n stage_ch h w]"]
    by (simp add: replicate_app_Cons_same)
qed

lemma OSA_layers_forward_init:
  assumes "0 < stage_ch" "0 < h" "0 < w" "bn_ok tr n h w"
  shows "OSA_layers_forward tr (layers (OSA_module_init in_ch stage_ch concat_ch L name ident))
           (Tensor n in_ch h w) out =
         Inr (if L = 0 then Tensor n in_ch h w else Tensor n stage_ch h w,
              out @ replicate L (Tensor n stage_ch h w))"
proof (cases L)
  case 0
  then show ?thesis by (simp add: OSA_module_init_layers)
next
  case (Suc L')
  have split: "[0..<Suc L'] = 0 # map Suc [0..<L']"
    by (simp add: upt_conv_Cons map_Suc_upt del: upt_Suc)
  have first: "Sequential_forward (module_forward tr) (conv3x3 in_ch stage_ch name (str 0) 1 1 3 1)
      (Tensor n in_ch h w) = Inr (Tensor n stage_ch h w)"
    using assms by (rule unit3_same)
  have rest: "OSA_layers_forward tr
       (map (\<lambda>i. conv3x3 stage_ch stage_ch name (str (Suc i)) 1 1 3 1) [0..<L'])
       (Tensor n stage_ch h w) (out @ [Tensor n stage_ch h w]) =
     Inr (Tensor n stage_ch h w,
          (out @ [Tensor n stage_ch h w]) @ replicate (length [0..<L']) (Tensor n stage_ch h w))"
    using assms by (rule OSA_layers_forward_same)
  show ?thesis
    unfolding OSA_module_init_layers Suc split
    using first rest by (simp add: comp_def replicate_app_Cons_same del: upt_Suc)
qed

lemma torch_cat_replicate:
  "torch_cat (Tensor n c h w # replicate L (Tensor n c' h w)) = Inr (Tensor n (c + L * c') h w)"
  by (simp add: list_all_iff sum_list_replicate)


lemma OSA_module_aggregate_init:
  assumes "0 < stage_ch" "0 < concat_ch" "0 < h" "0 < w" "bn_ok tr n h w"
  shows "OSA_module_aggregate tr (OSA_module_init in_ch stage_ch concat_ch L name ident)
           (Tensor n in_ch h w) = Inr (Tensor n concat_ch h w)"
proof -
  have "OSA_layers_forward tr (layers (OSA_module_init in_ch stage_ch concat_ch L name ident))
           (Tensor n in_ch h w) [Tensor n in_ch h w] =
         Inr (if L = 0 then Tensor n in_ch h w else Tensor n stage_ch h w,
              [Tensor n in_ch h w] @ replicate L (Tensor n stage_ch h w))"
    using assms(1,3,4,5) by (rule OSA_layers_forward_init)
  moreover have "Sequential_forward (module_forward tr)
      (conv1x1 (in_ch + L * stage_ch) concat_ch name ''concat'' 1 1 1 0)
      (Tensor n (in_ch + L * stage_ch) h w) = Inr (Tensor n concat_ch h w)"
    using assms(2-) by (rule unit1_forward)
  ultimately show ?thesis
    unfolding OSA_module_aggregate_def
    by (simp add: torch_cat_replicate OSA_module_init_concat del: torch_cat.simps)
qed

text \<open>
  Claim C2. An OSA module built for \<open>in_ch\<close> input channels, \<open>stage_ch\<close> stage
  channels and \<open>L\<close> layers holds \<open>L\<close> 3x3 Conv-Norm-Act units; on an input with
  \<open>in_ch\<close> channels each unit consumes the map before it (the input for the first) and
  yields a map of \<open>stage_ch\<close> channels; the input and the \<open>L\<close> maps are concatenated
  to \<open>in_ch + L * stage_ch\<close> channels, which is the input channel count of the single
  1x1 Conv-Norm-Act reduction, and the reduction yields \<open>concat_ch\<close> channels.
\<close>

theorem OSA_module_aggregation:
  assumes "0 < in_ch" "0 < stage_ch" "0 < concat_ch"
    and "0 < n" "0 < h" "0 < w" "tr \<longrightarrow> n * h * w \<noteq> 1"
  shows "let m = OSA_module_init in_ch stage_ch concat_ch L name ident;
             x = Tensor n in_ch h w;
             maps = replicate L (Tensor n stage_ch h w);
             cat = Tensor n (in_ch + L * stage_ch) h w
         in length (layers m) = L
          \<and> (\<forall>i<L. layers m ! i = conv3x3 (channels ((x # maps) ! i)) stage_ch name (str i) 1 1 3 1)
          \<and> (\<forall>i<L. Sequential_forward (module_forward tr) (layers m ! i) ((x # maps) ! i)
                      = Inr (maps ! i))
          \<and> OSA_layers_forward tr (layers m) x [x] = Inr (last (x # maps), x # maps)
          \<and> torch_cat (x # maps) = Inr cat
          \<and> concat_seq m = conv1x1 (in_ch + L * stage_ch) concat_ch name ''concat'' 1 1 1 0
          \<and> Sequential_forward (module_forward tr) (concat_seq m) cat = Inr (Tensor n concat_ch h w)
          \<and> OSA_module_aggregate tr m x = Inr (Tensor n concat_ch h w)"
proof -
  define m where "m = OSA_module_init in_ch stage_ch concat_ch L name ident"
  define x where "x = Tensor n in_ch h w"
  define y where "y = Tensor n stage_ch h w"
  define cat where "cat = Tensor n (in_ch + L * stage_ch) h w"
  have ok: "bn_ok tr n h w" using assms(7) by (simp add: bn_ok_def)
  have len: "length (layers m) = L"
    by (simp add: m_def OSA_module_init_layers)
  have chan: "channels ((x # replicate L y) ! i) = (if i = 0 then in_ch else stage_ch)"
    if "i < L" for i
    using that by (cases i) (simp_all add: x_def y_def)
  have units: "\<forall>i<L. layers m ! i
      = conv3x3 (channels ((x # replicate L y) ! i)) stage_ch name (str i) 1 1 3 1"
    using chan by (simp add: m_def OSA_module_init_layers)
  have step: "Sequential_forward (module_forward tr) (layers m ! i) ((x # replicate L y) ! i)
      = Inr (replicate L y ! i)" if "i < L" for i
  proof -
    have "(x # replicate L y) ! i = Tensor n (if i = 0 then in_ch else stage_ch) h w"
      using that by (cases i) (simp_all add: x_def y_def)
    moreover have "layers m ! i
        = conv3x3 (if i = 0 then in_ch else stage_ch) stage_ch name (str i) 1 1 3 1"
      using that by (simp add: m_def OSA_module_init_layers)
    moreover have "Sequential_forward (module_forward tr)
        (conv3x3 (if i = 0 then in_ch else stage_ch) stage_ch name (str i) 1 1 3 1)
        (Tensor n (if i = 0 then in_ch else stage_ch) h w) = Inr (Tensor n stage_ch h w)"
      using assms(2,5,6) ok by (rule unit3_same)
    ultimately show ?thesis using that by (simp add: y_def)
  qed
  have loop: "OSA_layers_forward tr (layers m) x [x]
      = Inr (last (x # replicate L y), x # replicate L y)"
    using OSA_layers_forward_init [OF assms(2,5,6) ok, of in_ch concat_ch L name ident "[x]"]
    by (simp add: m_def x_def y_def)
  have cat: "torch_cat (x # replicate L y) = Inr cat"
    unfolding x_def y_def cat_def by (rule torch_cat_replicate)
  have cseq: "concat_seq m = conv1x1 (in_ch + L * stage_ch) concat_ch name ''concat'' 1 1 1 0"
    by (simp add: m_def OSA_module_init_concat)
  have reduce: "Sequential_forward (module_forward tr) (concat_seq m) cat
      = Inr (Tensor n concat_ch h w)"
    unfolding cseq cat_def using assms(3,5,6) ok by (rule unit1_forward)
  have agg: "OSA_module_aggregate tr m x = Inr (Tensor n concat_ch h w)"
    unfolding m_def x_def using assms(2,3,5,6) ok by (rule OSA_module_aggregate_init)
  from len units step loop cat cseq reduce agg show ?thesis
    unfolding Let_def m_def [symmetric] x_def [symmetric] y_def [symmetric] cat_def [symmetric]
    by blast
qed

theorem OSA_module_aggregation_witness:
  "(0::nat) < 128 \<and> (0::nat) < 256 \<and> (0::nat) < 1 \<and> (0::nat) < 56
    \<and> (1::nat) * 56 * 56 \<noteq> 1
    \<and> length (layers (OSA_module_init 128 128 256 5 ''OSA2_1'' False)) = 5
    \<and> OSA_layers_forward True (layers (OSA_module_init 128 128 256 5 ''OSA2_1'' False))
         (Tensor 1 128 56 56) [Tensor 1 128 56 56]
       = Inr (Tensor 1 128 56 56, replicate 6 (Tensor 1 128 56 56))
    \<and> torch_cat (replicate 6 (Tensor 1 128 56 56)) = Inr (Tensor 1 768 56 56)
    \<and> concat_seq (OSA_module_init 128 128 256 5 ''OSA2_1'' False)
       = conv1x1 768 256 ''OSA2_1'' ''concat'' 1 1 1 0
    \<and> OSA_module_aggregate True (OSA_module_init 128 128 256 5 ''OSA2_1'' False)
         (Tensor 1 128 56 56) = Inr (Tensor 1 256 56 56)"
  using OSA_module_aggregation [of 128 128 256 1 56 56 True 5 "''OSA2_1''" False]
  by (simp add: Let_def numeral_eq_Suc del: torch_cat.simps)

section \<open>The OSA stage: structure and forward pass\<close>

lemma str_digit: "n < 10 \<Longrightarrow> str n = [digit n]"
  by (subst str.simps) simp

lemma str_small:
  "str 0 = ''0''" "str 1 = ''1''" "str 2 = ''2''" "str 3 = ''3''" "str 4 = ''4''" "str 5 = ''5''"
  by (simp_all add: str_digit digit_def)

lemma str_Suc_0: "str (Suc 0) = ''1''"
  using str_small(2) by simp

lemma OSA_name_inject: "OSA_name s i = OSA_name s j \<Longrightarrow> i = j"
  by (simp add: OSA_name_def str_inject)

lemma OSA_name_not_Pooling: "OSA_name s j \<noteq> ''Pooling''"
  by (simp add: OSA_name_def)

lemma OSA_stage_step_name:
  "OSA_stage_step stage_ch concat_ch L s i modules =
     AList.update (OSA_name s (i + 2))
       (OSA (OSA_module_init concat_ch stage_ch concat_ch L (OSA_name s (i + 2)) True)) modules"
  by (simp add: OSA_stage_step_def add_module_def OSA_name_def Let_def)

lemma OSA_stage_fold:
  assumes "fst ` set modules \<subseteq> {''Pooling'', OSA_name s 1}"
  shows "fold (OSA_stage_step stage_ch concat_ch L s) [0..<k] modules =
         modules @ map (\<lambda>i. (OSA_name s (i + 2),
                   OSA (OSA_module_init concat_ch stage_ch concat_ch L (OSA_name s (i + 2)) True)))
                     [0..<k]"
proof (induction k)
  case 0
  show ?case by simp
next
  case (Suc k)
  let ?done = "modules @ map (\<lambda>i. (OSA_name s (i + 2),
      OSA (OSA_module_init concat_ch stage_ch concat_ch L (OSA_name s (i + 2)) True))) [0..<k]"
  have "OSA_name s (k + 2) \<notin> fst ` set modules"
    using assms OSA_name_inject [of s "k + 2" 1] OSA_name_not_Pooling [of s "k + 2"] by auto
  moreover have "OSA_name s (k + 2) \<notin> (\<lambda>i. OSA_name s (i + 2)) ` {0..<k}"
  proof
    assume "OSA_name s (k + 2) \<in> (\<lambda>i. OSA_name s (i + 2)) ` {0..<k}"
    then obtain i where "i < k" and "OSA_name s (k + 2) = OSA_name s (i + 2)" by auto
    then show False using OSA_name_inject [of s "k + 2" "i + 2"] by simp
  qed
  ultimately have fresh: "OSA_name s (k + 2) \<notin> fst ` set ?done"
    by (auto simp: image_Un image_image)
  show ?case
    using Suc.IH update_fresh [OF fresh]
    by (simp add: OSA_stage_step_name)
qed

lemma OSA_stage_init_children:
  "OSA_stage_init in_ch stage_ch concat_ch blocks L s =
     (if s = 2 then [] else [(''Pooling'', Layer (MaxPool2d 3 2 0 True))])
     @ (OSA_name s 1, OSA (OSA_module_init in_ch stage_ch concat_ch L (OSA_name s 1) False))
     # map (\<lambda>i. (OSA_name s (i + 2),
              OSA (OSA_module_init concat_ch stage_ch concat_ch L (OSA_name s (i + 2)) True)))
         [0..<blocks - 1]"
proof -
  let ?pool = "if s = 2 then [] else [(''Pooling'', Layer (MaxPool2d 3 2 0 True))]"
  let ?first = "(OSA_name s 1, OSA (OSA_module_init in_ch stage_ch concat_ch L (OSA_name s 1) False))"
  have name1: "''OSA'' @ str s @ ''_1'' = OSA_name s 1"
    by (simp add: OSA_name_def str_Suc_0)
  have m1: "add_module (if \<not> s = 2 then add_module [] ''Pooling'' (Layer (MaxPool2d 3 2 0 True)) else [])
        (OSA_name s 1) (OSA (OSA_module_init in_ch stage_ch concat_ch L (OSA_name s 1) False))
      = ?pool @ [?first]"
    using OSA_name_not_Pooling [of s 1] by (auto simp: add_module_def)
  have keys: "fst ` set (?pool @ [?first]) \<subseteq> {''Pooling'', OSA_name s 1}"
    by auto
  show ?thesis
    unfolding OSA_stage_init_def Let_def name1 m1
    using OSA_stage_fold [OF keys] by simp
qed

lemma OSA_modules_append: "OSA_modules (xs @ ys) = OSA_modules xs @ OSA_modules ys"
  by (induction xs rule: OSA_modules.induct) simp_all

lemma OSA_modules_map:
  "OSA_modules (map (\<lambda>i. (f i, OSA (g i))) js) = map g js"
  by (induction js) simp_all

lemma OSA_modules_init:
  "OSA_modules (OSA_stage_init in_ch stage_ch concat_ch blocks L s) =
     OSA_module_init in_ch stage_ch concat_ch L (OSA_name s 1) False
     # map (\<lambda>i. OSA_module_init concat_ch stage_ch concat_ch L (OSA_name s (i + 2)) True)
         [0..<blocks - 1]"
  unfolding OSA_stage_init_children
  by (simp add: OSA_modules_append OSA_modules_map)

text \<open>
  Claim C3, as the code has it. For every stage index (2, 3, 4, 5 and any other), the
  stage starts with the 3x3 stride-2 ceil-mode max-pool exactly when the index is not 2.
  The first OSA module follows, built for the stage's input channel count and not in
  identity mode, and after it \<open>block_per_stage - 1\<close> modules in identity mode, built
  with \<open>concat_ch\<close> as input and output channel count. The stage thus holds
  \<open>max 1 block_per_stage\<close> OSA modules: \<open>block_per_stage\<close> of them whenever that
  count is at least one, and one when it is zero.
\<close>

theorem OSA_stage_structure:
  "OSA_stage_init in_ch stage_ch concat_ch blocks L s =
     (if s = 2 then [] else [(''Pooling'', Layer (MaxPool2d 3 2 0 True))])
     @ (OSA_name s 1, OSA (OSA_module_init in_ch stage_ch concat_ch L (OSA_name s 1) False))
     # map (\<lambda>i. (OSA_name s (i + 2),
              OSA (OSA_module_init concat_ch stage_ch concat_ch L (OSA_name s (i + 2)) True)))
         [0..<blocks - 1]
   \<and> length (OSA_modules (OSA_stage_init in_ch stage_ch concat_ch blocks L s)) = max 1 blocks"
  using OSA_stage_init_children [of in_ch stage_ch concat_ch blocks L s]
    OSA_modules_init [of in_ch stage_ch concat_ch blocks L s]
  by (simp add: max_def)

text \<open>
  Claim C3 as stated fails for \<open>block_per_stage = 0\<close>: the first module is added
  before the loop, so the stage holds one OSA module, not zero.
\<close>

theorem OSA_stage_zero_blocks:
  "length (OSA_modules (OSA_stage_init 128 128 256 0 5 2)) \<noteq> 0"
  by (simp add: OSA_modules_init)

lemma Sequential_forward_append:
  "Sequential_forward f (xs @ ys) x =
     (case Sequential_forward f xs x of Inl e \<Rightarrow> Inl e | Inr y \<Rightarrow> Sequential_forward f ys y)"
  by (induction xs arbitrary: x) (simp_all split: sum.splits)

lemma pooling_half:
  "2 \<le> h \<Longrightarrow> pooling_output_shape (int h) 3 0 2 True = int (h div 2)"
  unfolding pooling_output_shape_def Let_def by (simp add: zdiv_int) linarith

lemma MaxPool2d_forward:
  assumes "2 \<le> h" "2 \<le> w"
  shows "module_forward tr (MaxPool2d 3 2 0 True) (Tensor n c h w) =
         Inr (Tensor n c (h div 2) (w div 2))"
proof -
  have "pooling_output_shape (int h) (int 3) (int 0) (int 2) True = int (h div 2)"
    using pooling_half [OF assms(1)] by simp
  moreover have "pooling_output_shape (int w) (int 3) (int 0) (int 2) True = int (w div 2)"
    using pooling_half [OF assms(2)] by simp
  moreover have "1 \<le> h div 2" "1 \<le> w div 2" using assms by simp_all
  ultimately show ?thesis by (simp add: Let_def)
qed

lemma tensor_add_same: "tensor_add x x = Inr x"
  by (cases x) (simp add: tensor_add_def broadcast_def)

lemma OSA_module_forward_init:
  assumes "0 < stage_ch" "0 < concat_ch" "0 < h" "0 < w" "bn_ok tr n h w"
    and "ident \<longrightarrow> in_ch = concat_ch"
  shows "OSA_module_forward tr (OSA_module_init in_ch stage_ch concat_ch L name ident)
           (Tensor n in_ch h w) = Inr (Tensor n concat_ch h w)"
  using OSA_module_aggregate_init [OF assms(1-5), of in_ch L name ident] assms(6)
  by (simp add: OSA_module_forward_def OSA_module_init_identity tensor_add_same)

lemma identity_modules_forward:
  assumes "0 < stage_ch" "0 < concat_ch" "0 < h" "0 < w" "bn_ok tr n h w"
  shows "Sequential_forward (child_forward tr)
           (map (\<lambda>i. (f i, OSA (OSA_module_init concat_ch stage_ch concat_ch L (g i) True))) js)
           (Tensor n concat_ch h w) = Inr (Tensor n concat_ch h w)"
proof (induction js)
  case Nil
  show ?case by simp
next
  case (Cons j js)
  have "OSA_module_forward tr (OSA_module_init concat_ch stage_ch concat_ch L (g j) True)
      (Tensor n concat_ch h w) = Inr (Tensor n concat_ch h w)"
    using assms by (intro OSA_module_forward_init) simp_all
  with Cons.IH show ?case by simp
qed

lemma OSA_stage_forward_init:
  assumes "0 < stage_ch" "0 < concat_ch"
    and "if s = 2 then 0 < h \<and> 0 < w else 2 \<le> h \<and> 2 \<le> w"
    and "bn_ok tr n (if s = 2 then h else h div 2) (if s = 2 then w else w div 2)"
  shows "OSA_stage_forward tr (OSA_stage_init in_ch stage_ch concat_ch blocks L s)
           (Tensor n in_ch h w) =
         Inr (Tensor n concat_ch (if s = 2 then h else h div 2) (if s = 2 then w else w div 2))"
proof -
  let ?h = "if s = 2 then h else h div 2" and ?w = "if s = 2 then w else w div 2"
  have pos: "0 < ?h" "0 < ?w" using assms(3) by (auto split: if_splits)
  have pool: "Sequential_forward (child_forward tr)
      (if s = 2 then [] else [(''Pooling'', Layer (MaxPool2d 3 2 0 True))]) (Tensor n in_ch h w)
      = Inr (Tensor n in_ch ?h ?w)"
    using assms(3) by (simp add: MaxPool2d_forward del: module_forward.simps)
  have first: "OSA_module_forward tr
      (OSA_module_init in_ch stage_ch concat_ch L (OSA_name s 1) False) (Tensor n in_ch ?h ?w)
      = Inr (Tensor n concat_ch ?h ?w)"
    using assms(1,2) pos assms(4) by (intro OSA_module_forward_init) simp_all
  have rest: "Sequential_forward (child_forward tr)
      (map (\<lambda>i. (OSA_name s (i + 2),
              OSA (OSA_module_init concat_ch stage_ch concat_ch L (OSA_name s (i + 2)) True)))
         [0..<blocks - 1]) (Tensor n concat_ch ?h ?w) = Inr (Tensor n concat_ch ?h ?w)"
    using assms(1,2) pos assms(4) by (rule identity_modules_forward)
  show ?thesis
    unfolding OSA_stage_forward_def OSA_stage_init_children Sequential_forward_append
    using pool first rest by simp
qed

section \<open>The backbone: construction and forward pass\<close>

lemma bn_ok_mono:
  assumes "bn_ok tr n h' w'" "0 < h'" "0 < w'" "h' \<le> h" "w' \<le> w"
  shows "bn_ok tr n h w"
proof -
  have "n * h' * w' = 1" if "n * h * w = 1"
  proof -
    from that have "n = 1" "h = 1" "w = 1" by simp_all
    with assms(2-5) show ?thesis by simp
  qed
  with assms(1) show ?thesis by (auto simp: bn_ok_def)
qed

lemma stem_forward:
  assumes "0 < h" "0 < w" "bn_ok tr n ((h + 3) div 4) ((w + 3) div 4)"
  shows "Sequential_forward (module_forward tr) stem_modules (Tensor n 3 h w) =
         Inr (Tensor n 128 ((h + 3) div 4) ((w + 3) div 4))"
proof -
  let ?h1 = "(h + 1) div 2" and ?w1 = "(w + 1) div 2"
  have pos1: "0 < ?h1" "0 < ?w1" using assms(1,2) by simp_all
  have size1: "conv_output_size h 3 2 1 = ?h1" "conv_output_size w 3 2 1 = ?w1"
    using assms(1,2) by (simp_all only: conv_size_half)
  have size3: "conv_output_size ?h1 3 2 1 = (h + 3) div 4" "conv_output_size ?w1 3 2 1 = (w + 3) div 4"
    using pos1 by (simp_all only: conv_size_half)
  have ok1: "bn_ok tr n ?h1 ?w1"
    using assms(3) by (rule bn_ok_mono) (use assms(1,2) in simp_all)
  have u1: "Sequential_forward (module_forward tr) (conv3x3 3 64 ''stem'' ''1'' 2 1 3 1)
      (Tensor n 3 h w) = Inr (Tensor n 64 ?h1 ?w1)"
    using unit3_forward [of 2 64 h w tr n 3 "''stem''" "''1''"] assms(1,2) ok1
    by (simp only: size1)
  have u2: "Sequential_forward (module_forward tr) (conv3x3 64 64 ''stem'' ''2'' 1 1 3 1)
      (Tensor n 64 ?h1 ?w1) = Inr (Tensor n 64 ?h1 ?w1)"
    using pos1 ok1 by (intro unit3_same) simp_all
  have u3: "Sequential_forward (module_forward tr) (conv3x3 64 128 ''stem'' ''3'' 2 1 3 1)
      (Tensor n 64 ?h1 ?w1) = Inr (Tensor n 128 ((h + 3) div 4) ((w + 3) div 4))"
    using unit3_forward [of 2 128 ?h1 ?w1 tr n 64 "''stem''" "''3''"] pos1 assms(3)
    by (simp only: size3)
  show ?thesis
    unfolding stem_modules_def Sequential_forward_append using u1 u2 u3 by simp
qed

lemma OrderedDict_stem: "OrderedDict stem_modules = stem_modules"
  by (rule OrderedDict_distinct) (simp add: stem_modules_def conv3x3_def)

lemma VoVNet_init_ok:
  assumes "4 \<le> length cs" "4 \<le> length cc" "4 \<le> length blocks"
  shows "VoVNet_init cs cc blocks L num_classes =
     Inr \<lparr> stem = stem_modules,
           stage_names = [''stage2'', ''stage3'', ''stage4'', ''stage5''],
           stages =
             [(''stage2'', OSA_stage_init 128 (cs ! 0) (cc ! 0) (blocks ! 0) L 2),
              (''stage3'', OSA_stage_init (cc ! 0) (cs ! 1) (cc ! 1) (blocks ! 1) L 3),
              (''stage4'', OSA_stage_init (cc ! 1) (cs ! 2) (cc ! 2) (blocks ! 2) L 4),
              (''stage5'', OSA_stage_init (cc ! 2) (cs ! 3) (cc ! 3) (blocks ! 3) L 5)],
           classifier = (last cc, num_classes),
           training = True \<rparr>"
proof -
  have idx: "[0..<4] = [0, 1, 2, 3]" by (simp add: upt_rec)
  have ne: "cc \<noteq> []" using assms(2) by auto
  have last: "py_last cc = Inr (last cc)"
    using ne by (cases cc) (simp_all add: py_last_def)
  have in_ch: "([128] @ butlast cc) ! 0 = 128" "([128] @ butlast cc) ! 1 = cc ! 0"
    "([128] @ butlast cc) ! 2 = cc ! 1" "([128] @ butlast cc) ! 3 = cc ! 2"
    using assms(2) by (simp_all add: nth_butlast)
  have loop: "VoVNet_stages_loop ([128] @ butlast cc) cs cc blocks L [0, 1, 2, 3] ([], []) =
      Inr ([''stage2'', ''stage3'', ''stage4'', ''stage5''],
           [(''stage2'', OSA_stage_init 128 (cs ! 0) (cc ! 0) (blocks ! 0) L 2),
            (''stage3'', OSA_stage_init (cc ! 0) (cs ! 1) (cc ! 1) (blocks ! 1) L 3),
            (''stage4'', OSA_stage_init (cc ! 1) (cs ! 2) (cc ! 2) (blocks ! 2) L 4),
            (''stage5'', OSA_stage_init (cc ! 2) (cs ! 3) (cc ! 3) (blocks ! 3) L 5)])"
    using assms in_ch
    by (auto simp add: py_index_def and_then_def add_module_def str_small Let_def
          simp del: One_nat_def add_2_eq_Suc add_2_eq_Suc')
  have stem: "OrderedDict ((conv3x3 3 64 ''stem'' ''1'' 2 1 3 1 @ conv3x3 64 64 ''stem'' ''2'' 1 1 3 1)
      @ conv3x3 64 128 ''stem'' ''3'' 2 1 3 1) = stem_modules"
    using OrderedDict_stem by (simp add: stem_modules_def)
  show ?thesis
    unfolding VoVNet_init_def Let_def idx stem loop last by simp
qed

lemma call_stage_init:
  assumes "map_of (stages m) name = Some (OSA_stage_init in_ch stage_ch concat_ch blocks L s)"
    and "0 < stage_ch" "0 < concat_ch"
    and "if s = 2 then 0 < h \<and> 0 < w else 2 \<le> h \<and> 2 \<le> w"
    and "bn_ok tr n (if s = 2 then h else h div 2) (if s = 2 then w else w div 2)"
  shows "call_stage (train tr m) name (Tensor n in_ch h w) =
         Inr (Tensor n concat_ch (if s = 2 then h else h div 2) (if s = 2 then w else w div 2))"
  using assms(1) OSA_stage_forward_init [OF assms(2-5), of in_ch blocks L]
  by (simp add: call_stage_def train_def)

lemma VoVNet_stages_forward:
  assumes len: "4 \<le> length cs" "4 \<le> length cc" "4 \<le> length blocks"
    and pos: "0 < cs ! 0" "0 < cs ! 1" "0 < cs ! 2" "0 < cs ! 3"
             "0 < cc ! 0" "0 < cc ! 1" "0 < cc ! 2" "0 < cc ! 3"
    and size: "29 \<le> h" "29 \<le> w"
    and ok: "bn_ok tr n ((h + 3) div 32) ((w + 3) div 32)"
    and init: "VoVNet_init cs cc blocks L num_classes = Inr m"
  shows "Sequential_forward (module_forward (training (train tr m))) (stem (train tr m))
           (Tensor n 3 h w) = Inr (Tensor n 128 ((h + 3) div 4) ((w + 3) div 4))"
    and "call_stage (train tr m) ''stage2'' (Tensor n 128 ((h + 3) div 4) ((w + 3) div 4)) =
           Inr (Tensor n (cc ! 0) ((h + 3) div 4) ((w + 3) div 4))"
    and "call_stage (train tr m) ''stage3'' (Tensor n (cc ! 0) ((h + 3) div 4) ((w + 3) div 4)) =
           Inr (Tensor n (cc ! 1) ((h + 3) div 8) ((w + 3) div 8))"
    and "call_stage (train tr m) ''stage4'' (Tensor n (cc ! 1) ((h + 3) div 8) ((w + 3) div 8)) =
           Inr (Tensor n (cc ! 2) ((h + 3) div 16) ((w + 3) div 16))"
    and "call_stage (train tr m) ''stage5'' (Tensor n (cc ! 2) ((h + 3) div 16) ((w + 3) div 16)) =
           Inr (Tensor n (cc ! 3) ((h + 3) div 32) ((w + 3) div 32))"
proof -
  have m: "m = \<lparr> stem = stem_modules,
           stage_names = [''stage2'', ''stage3'', ''stage4'', ''stage5''],
           stages =
             [(''stage2'', OSA_stage_init 128 (cs ! 0) (cc ! 0) (blocks ! 0) L 2),
              (''stage3'', OSA_stage_init (cc ! 0) (cs ! 1) (cc ! 1) (blocks ! 1) L 3),
              (''stage4'', OSA_stage_init (cc ! 1) (cs ! 2) (cc ! 2) (blocks ! 2) L 4),
              (''stage5'', OSA_stage_init (cc ! 2) (cs ! 3) (cc ! 3) (blocks ! 3) L 5)],
           classifier = (last cc, num_classes),
           training = True \<rparr>"
    using init VoVNet_init_ok [OF len, of L num_classes] by simp
  have look: "map_of (stages m) ''stage2'' = Some (OSA_stage_init 128 (cs ! 0) (cc ! 0) (blocks ! 0) L 2)"
    "map_of (stages m) ''stage3'' = Some (OSA_stage_init (cc ! 0) (cs ! 1) (cc ! 1) (blocks ! 1) L 3)"
    "map_of (stages m) ''stage4'' = Some (OSA_stage_init (cc ! 1) (cs ! 2) (cc ! 2) (blocks ! 2) L 4)"
    "map_of (stages m) ''stage5'' = Some (OSA_stage_init (cc ! 2) (cs ! 3) (cc ! 3) (blocks ! 3) L 5)"
    by (simp_all add: m)
  have h: "8 \<le> (h + 3) div 4" "4 \<le> (h + 3) div 8" "2 \<le> (h + 3) div 16" "1 \<le> (h + 3) div 32"
    using size(1) by simp_all
  have w: "8 \<le> (w + 3) div 4" "4 \<le> (w + 3) div 8" "2 \<le> (w + 3) div 16" "1 \<le> (w + 3) div 32"
    using size(2) by simp_all
  have halves: "(h + 3) div 4 div 2 = (h + 3) div 8" "(h + 3) div 8 div 2 = (h + 3) div 16"
    "(h + 3) div 16 div 2 = (h + 3) div 32"
    "(w + 3) div 4 div 2 = (w + 3) div 8" "(w + 3) div 8 div 2 = (w + 3) div 16"
    "(w + 3) div 16 div 2 = (w + 3) div 32"
    by (simp_all add: div_mult2_eq [symmetric])
  have ok16: "bn_ok tr n ((h + 3) div 16) ((w + 3) div 16)"
    using ok by (rule bn_ok_mono) (use h w in \<open>simp_all add: div_le_mono2\<close>)
  have ok8: "bn_ok tr n ((h + 3) div 8) ((w + 3) div 8)"
    using ok by (rule bn_ok_mono) (use h w in \<open>simp_all add: div_le_mono2\<close>)
  have ok4: "bn_ok tr n ((h + 3) div 4) ((w + 3) div 4)"
    using ok by (rule bn_ok_mono) (use h w in \<open>simp_all add: div_le_mono2\<close>)
  show "Sequential_forward (module_forward (training (train tr m))) (stem (train tr m))
           (Tensor n 3 h w) = Inr (Tensor n 128 ((h + 3) div 4) ((w + 3) div 4))"
    using stem_forward [of h w tr n] size ok4 by (simp add: m train_def)
  show "call_stage (train tr m) ''stage2'' (Tensor n 128 ((h + 3) div 4) ((w + 3) div 4)) =
           Inr (Tensor n (cc ! 0) ((h + 3) div 4) ((w + 3) div 4))"
    using call_stage_init [OF look(1) pos(1) pos(5), of "(h + 3) div 4" "(w + 3) div 4" tr n]
      h w ok4 by simp
  show "call_stage (train tr m) ''stage3'' (Tensor n (cc ! 0) ((h + 3) div 4) ((w + 3) div 4)) =
           Inr (Tensor n (cc ! 1) ((h + 3) div 8) ((w + 3) div 8))"
    using call_stage_init [OF look(2) pos(2) pos(6), of "(h + 3) div 4" "(w + 3) div 4" tr n]
      h w ok8 by (simp add: halves)
  show "call_stage (train tr m) ''stage4'' (Tensor n (cc ! 1) ((h + 3) div 8) ((w + 3) div 8)) =
           Inr (Tensor n (cc ! 2) ((h + 3) div 16) ((w + 3) div 16))"
    using call_stage_init [OF look(3) pos(3) pos(7), of "(h + 3) div 8" "(w + 3) div 8" tr n]
      h w ok16 by (simp add: halves)
  show "call_stage (train tr m) ''stage5'' (Tensor n (cc ! 2) ((h + 3) div 16) ((w + 3) div 16)) =
           Inr (Tensor n (cc ! 3) ((h + 3) div 32) ((w + 3) div 32))"
    using call_stage_init [OF look(4) pos(4) pos(8), of "(h + 3) div 16" "(w + 3) div 16" tr n]
      h w ok by (simp add: halves)
qed

lemma VoVNet_forward_init:
  assumes len: "4 \<le> length cs" "4 \<le> length cc" "4 \<le> length blocks"
    and pos: "0 < cs ! 0" "0 < cs ! 1" "0 < cs ! 2" "0 < cs ! 3"
             "0 < cc ! 0" "0 < cc ! 1" "0 < cc ! 2" "0 < cc ! 3"
    and size: "29 \<le> h" "29 \<le> w"
    and ok: "bn_ok tr n ((h + 3) div 32) ((w + 3) div 32)"
    and init: "VoVNet_init cs cc blocks L num_classes = Inr m"
  shows "VoVNet_forward (train tr m) (Tensor n 3 h w) =
     Inr [''res2'' \<mapsto> Tensor n (cc ! 0) ((h + 3) div 4) ((w + 3) div 4),
          ''res3'' \<mapsto> Tensor n (cc ! 1) ((h + 3) div 8) ((w + 3) div 8),
          ''res4'' \<mapsto> Tensor n (cc ! 2) ((h + 3) div 16) ((w + 3) div 16),
          ''res5'' \<mapsto> Tensor n (cc ! 3) ((h + 3) div 32) ((w + 3) div 32)]"
  unfolding VoVNet_forward_def Let_def
  by (simp only: VoVNet_stages_forward [OF assms] and_then_def sum.case)

lemma VoVNet_init_lengths:
  assumes "VoVNet_init cs cc blocks L num_classes = Inr m"
  shows "4 \<le> length cs \<and> 4 \<le> length cc \<and> 4 \<le> length blocks"
proof -
  have idx: "[0..<4] = [0, 1, 2, 3]" by (simp add: upt_rec)
  obtain st where loop: "VoVNet_stages_loop ([128] @ butlast cc) cs cc blocks L [0, 1, 2, 3] ([], []) = Inr st"
    using assms unfolding VoVNet_init_def Let_def idx by (auto split: sum.splits)
  then have "py_index cs 3 \<noteq> Inl IndexError \<and> py_index cc 3 \<noteq> Inl IndexError
      \<and> py_index blocks 3 \<noteq> Inl IndexError"
    by (auto simp add: and_then_def Let_def split: sum.splits
          simp del: One_nat_def add_2_eq_Suc add_2_eq_Suc')
  then show ?thesis
    by (auto simp: py_index_def split: if_splits)
qed

lemma named_builders:
  "vovnet57 loader False progress kwargs =
     VoVNet_init [128, 160, 192, 224] [256, 512, 768, 1024] [1, 1, 4, 3] 5
       (case kwargs of None \<Rightarrow> 1000 | Some k \<Rightarrow> k)"
  "vovnet39 loader False progress kwargs =
     VoVNet_init [128, 160, 192, 224] [256, 512, 768, 1024] [1, 1, 2, 2] 5
       (case kwargs of None \<Rightarrow> 1000 | Some k \<Rightarrow> k)"
  "vovnet27_slim loader False progress kwargs =
     VoVNet_init [64, 80, 96, 112] [128, 256, 384, 512] [1, 1, 1, 1] 5
       (case kwargs of None \<Rightarrow> 1000 | Some k \<Rightarrow> k)"
  by (simp_all add: vovnet57_def vovnet39_def vovnet27_slim_def vovnet_def split: sum.splits)

lemma named_forward:
  assumes cfg: "(build, chans) = (vovnet57, [256, 512, 768, 1024])
              \<or> (build, chans) = (vovnet39, [256, 512, 768, 1024])
              \<or> (build, chans) = (vovnet27_slim, [128, 256, 384, 512])"
    and size: "29 \<le> h" "29 \<le> w"
    and ok: "bn_ok tr n ((h + 3) div 32) ((w + 3) div 32)"
  shows "\<exists>m. build loader False progress kwargs = Inr m
    \<and> Sequential_forward (module_forward (training (train tr m))) (stem (train tr m))
           (Tensor n 3 h w) = Inr (Tensor n 128 ((h + 3) div 4) ((w + 3) div 4))
    \<and> call_stage (train tr m) ''stage2'' (Tensor n 128 ((h + 3) div 4) ((w + 3) div 4)) =
           Inr (Tensor n (chans ! 0) ((h + 3) div 4) ((w + 3) div 4))
    \<and> call_stage (train tr m) ''stage3'' (Tensor n (chans ! 0) ((h + 3) div 4) ((w + 3) div 4)) =
           Inr (Tensor n (chans ! 1) ((h + 3) div 8) ((w + 3) div 8))
    \<and> call_stage (train tr m) ''stage4'' (Tensor n (chans ! 1) ((h + 3) div 8) ((w + 3) div 8)) =
           Inr (Tensor n (chans ! 2) ((h + 3) div 16) ((w + 3) div 16))
    \<and> call_stage (train tr m) ''stage5'' (Tensor n (chans ! 2) ((h + 3) div 16) ((w + 3) div 16)) =
           Inr (Tensor n (chans ! 3) ((h + 3) div 32) ((w + 3) div 32))
    \<and> VoVNet_forward (train tr m) (Tensor n 3 h w) =
         Inr [''res2'' \<mapsto> Tensor n (chans ! 0) ((h + 3) div 4) ((w + 3) div 4),
              ''res3'' \<mapsto> Tensor n (chans ! 1) ((h + 3) div 8) ((w + 3) div 8),
              ''res4'' \<mapsto> Tensor n (chans ! 2) ((h + 3) div 16) ((w + 3) div 16),
              ''res5'' \<mapsto> Tensor n (chans ! 3) ((h + 3) div 32) ((w + 3) div 32)]"
proof -
  define nc where "nc = (case kwargs of None \<Rightarrow> 1000 | Some k \<Rightarrow> (k::nat))"
  obtain cs blocks where build: "build loader False progress kwargs = VoVNet_init cs chans blocks 5 nc"
    and len: "4 \<le> length cs" "4 \<le> length chans" "4 \<le> length blocks"
    and pos: "0 < cs ! 0" "0 < cs ! 1" "0 < cs ! 2" "0 < cs ! 3"
             "0 < chans ! 0" "0 < chans ! 1" "0 < chans ! 2" "0 < chans ! 3"
  proof -
    from cfg consider "build = vovnet57 \<and> chans = [256, 512, 768, 1024]"
      | "build = vovnet39 \<and> chans = [256, 512, 768, 1024]"
      | "build = vovnet27_slim \<and> chans = [128, 256, 384, 512]" by auto
    then show thesis
    proof cases
      case 1
      show thesis
        by (rule that [of "[128, 160, 192, 224]" "[1, 1, 4, 3]"])
           (simp_all add: 1 named_builders nc_def)
    next
      case 2
      show thesis
        by (rule that [of "[128, 160, 192, 224]" "[1, 1, 2, 2]"])
           (simp_all add: 2 named_builders nc_def)
    next
      case 3
      show thesis
        by (rule that [of "[64, 80, 96, 112]" "[1, 1, 1, 1]"])
           (simp_all add: 3 named_builders nc_def)
    qed
  qed
  obtain m where init: "VoVNet_init cs chans blocks 5 nc = Inr m"
    using VoVNet_init_ok [OF len] by blast
  note stages = VoVNet_stages_forward [OF len pos size ok init]
  note whole = VoVNet_forward_init [OF len pos size ok init]
  from build init stages whole show ?thesis by simp
qed

lemma train_init:
  assumes "VoVNet_init cs cc blocks L num_classes = Inr m"
  shows "train True m = m"
  using assms by (auto simp: VoVNet_init_def train_def Let_def split: sum.splits)

lemma bn_ok_iff: "bn_ok tr n h w \<longleftrightarrow> (tr \<longrightarrow> n * h * w \<noteq> 1)"
  by (auto simp: bn_ok_def)

text \<open>
  Claim C4. For each of the three named configurations, built without pretrained weights,
  and for every input of three channels that the network can process (a non-empty batch,
  extents of at least 29, which is what the three poolings need, and in training mode
  more than one value per channel at the last stage), in training mode or not: the
  forward pass returns a mapping with exactly the keys \<open>res2\<close>, \<open>res3\<close>, \<open>res4\<close>
  and \<open>res5\<close>; the value under \<open>res2\<close> is what stage 2 returns on the result of
  the stem, and each later value is what its stage returns on the value before it; the
  channel counts are 256, 512, 768, 1024 for the 57 and 39 configurations and 128, 256,
  384, 512 for the slim one.
\<close>

theorem VoVNet_forward_feature_maps:
  assumes "(build, chans) = (vovnet57, [256, 512, 768, 1024])
         \<or> (build, chans) = (vovnet39, [256, 512, 768, 1024])
         \<or> (build, chans) = (vovnet27_slim, [128, 256, 384, 512])"
    and "0 < n" "29 \<le> h" "29 \<le> w"
    and "tr \<longrightarrow> n * ((h + 3) div 32) * ((w + 3) div 32) \<noteq> 1"
  shows "\<exists>m x0 x2 x3 x4 x5.
      build loader False progress kwargs = Inr m
    \<and> Sequential_forward (module_forward (training (train tr m))) (stem (train tr m))
         (Tensor n 3 h w) = Inr x0
    \<and> call_stage (train tr m) ''stage2'' x0 = Inr x2
    \<and> call_stage (train tr m) ''stage3'' x2 = Inr x3
    \<and> call_stage (train tr m) ''stage4'' x3 = Inr x4
    \<and> call_stage (train tr m) ''stage5'' x4 = Inr x5
    \<and> VoVNet_forward (train tr m) (Tensor n 3 h w) =
         Inr [''res2'' \<mapsto> x2, ''res3'' \<mapsto> x3, ''res4'' \<mapsto> x4, ''res5'' \<mapsto> x5]
    \<and> dom [''res2'' \<mapsto> x2, ''res3'' \<mapsto> x3, ''res4'' \<mapsto> x4, ''res5'' \<mapsto> x5] =
         {''res2'', ''res3'', ''res4'', ''res5''}
    \<and> map channels [x2, x3, x4, x5] = chans"
proof -
  have ok: "bn_ok tr n ((h + 3) div 32) ((w + 3) div 32)"
    using assms(5) by (simp add: bn_ok_iff)
  have chans: "[chans ! 0, chans ! 1, chans ! 2, chans ! 3] = chans"
    using assms(1) by auto
  from named_forward [OF assms(1,3,4) ok, of loader progress kwargs]
  obtain m where m: "build loader False progress kwargs = Inr m"
    "Sequential_forward (module_forward (training (train tr m))) (stem (train tr m))
           (Tensor n 3 h w) = Inr (Tensor n 128 ((h + 3) div 4) ((w + 3) div 4))"
    "call_stage (train tr m) ''stage2'' (Tensor n 128 ((h + 3) div 4) ((w + 3) div 4)) =
           Inr (Tensor n (chans ! 0) ((h + 3) div 4) ((w + 3) div 4))"
    "call_stage (train tr m) ''stage3'' (Tensor n (chans ! 0) ((h + 3) div 4) ((w + 3) div 4)) =
           Inr (Tensor n (chans ! 1) ((h + 3) div 8) ((w + 3) div 8))"
    "call_stage (train tr m) ''stage4'' (Tensor n (chans ! 1) ((h + 3) div 8) ((w + 3) div 8)) =
           Inr (Tensor n (chans ! 2) ((h + 3) div 16) ((w + 3) div 16))"
    "call_stage (train tr m) ''stage5'' (Tensor n (chans ! 2) ((h + 3) div 16) ((w + 3) div 16)) =
           Inr (Tensor n (chans ! 3) ((h + 3) div 32) ((w + 3) div 32))"
    "VoVNet_forward (train tr m) (Tensor n 3 h w) =
         Inr [''res2'' \<mapsto> Tensor n (chans ! 0) ((h + 3) div 4) ((w + 3) div 4),
              ''res3'' \<mapsto> Tensor n (chans ! 1) ((h + 3) div 8) ((w + 3) div 8),
              ''res4'' \<mapsto> Tensor n (chans ! 2) ((h + 3) div 16) ((w + 3) div 16),
              ''res5'' \<mapsto> Tensor n (chans ! 3) ((h + 3) div 32) ((w + 3) div 32)]"
    by blast
  have keys: "dom [''res2'' \<mapsto> a, ''res3'' \<mapsto> b, ''res4'' \<mapsto> c, ''res5'' \<mapsto> d] =
         {''res2'', ''res3'', ''res4'', ''res5''}" for a b c d :: tensor
    by auto
  show ?thesis
    apply (rule exI [of _ m])
    apply (rule exI [of _ "Tensor n 128 ((h + 3) div 4) ((w + 3) div 4)"])
    apply (rule exI [of _ "Tensor n (chans ! 0) ((h + 3) div 4) ((w + 3) div 4)"])
    apply (rule exI [of _ "Tensor n (chans ! 1) ((h + 3) div 8) ((w + 3) div 8)"])
    apply (rule exI [of _ "Tensor n (chans ! 2) ((h + 3) div 16) ((w + 3) div 16)"])
    apply (rule exI [of _ "Tensor n (chans ! 3) ((h + 3) div 32) ((w + 3) div 32)"])
    using m keys chans apply simp
    done
qed

theorem VoVNet_forward_feature_maps_witness:
  "(0::nat) < 1 \<and> (29::nat) \<le> 224 \<and> (1::nat) * ((224 + 3) div 32) * ((224 + 3) div 32) \<noteq> 1
   \<and> (\<exists>m x0 x2 x3 x4 x5.
      vovnet39 (\<lambda>url progress model. Inr model) False True None = Inr m
    \<and> Sequential_forward (module_forward (training (train True m))) (stem (train True m))
         (Tensor 1 3 224 224) = Inr x0
    \<and> call_stage (train True m) ''stage2'' x0 = Inr x2
    \<and> call_stage (train True m) ''stage3'' x2 = Inr x3
    \<and> call_stage (train True m) ''stage4'' x3 = Inr x4
    \<and> call_stage (train True m) ''stage5'' x4 = Inr x5
    \<and> VoVNet_forward (train True m) (Tensor 1 3 224 224) =
         Inr [''res2'' \<mapsto> x2, ''res3'' \<mapsto> x3, ''res4'' \<mapsto> x4, ''res5'' \<mapsto> x5]
    \<and> dom [''res2'' \<mapsto> x2, ''res3'' \<mapsto> x3, ''res4'' \<mapsto> x4, ''res5'' \<mapsto> x5] =
         {''res2'', ''res3'', ''res4'', ''res5''}
    \<and> map channels [x2, x3, x4, x5] = [256, 512, 768, 1024])"
  using VoVNet_forward_feature_maps [of vovnet39 "[256, 512, 768, 1024]" 1 224 224 True
      "\<lambda>url progress model. Inr model" True None]
  by simp

text \<open>
  Claim C5. For each named configuration and every input as in C4, the extents of the
  outputs \<open>res2\<close> to \<open>res5\<close> are the input extents divided by 4, 8, 16 and 32:
  \<open>(h + 3) div s\<close> in general, which is exactly \<open>h / s\<close> (the output extent times
  the stride is the input extent) when 32 divides the input extent. An input of 224 by
  224 gives extents 56, 28, 14 and 7.
\<close>

theorem VoVNet_output_strides:
  assumes "build = vovnet57 \<or> build = vovnet39 \<or> build = vovnet27_slim"
    and "0 < n" "29 \<le> h" "29 \<le> w"
    and "tr \<longrightarrow> n * ((h + 3) div 32) * ((w + 3) div 32) \<noteq> 1"
  shows "\<exists>m out.
      build loader False progress kwargs = Inr m
    \<and> VoVNet_forward (train tr m) (Tensor n 3 h w) = Inr out
    \<and> map (\<lambda>k. map_option height (out k)) [''res2'', ''res3'', ''res4'', ''res5'']
        = map (\<lambda>s. Some ((h + 3) div s)) [4, 8, 16, 32]
    \<and> map (\<lambda>k. map_option width (out k)) [''res2'', ''res3'', ''res4'', ''res5'']
        = map (\<lambda>s. Some ((w + 3) div s)) [4, 8, 16, 32]
    \<and> (32 dvd h \<longrightarrow>
         map (\<lambda>(k, s). map_option (\<lambda>t. s * height t) (out k))
           [(''res2'', 4), (''res3'', 8), (''res4'', 16), (''res5'', 32)]
         = [Some h, Some h, Some h, Some h])
    \<and> (32 dvd w \<longrightarrow>
         map (\<lambda>(k, s). map_option (\<lambda>t. s * width t) (out k))
           [(''res2'', 4), (''res3'', 8), (''res4'', 16), (''res5'', 32)]
         = [Some w, Some w, Some w, Some w])
    \<and> (h = 224 \<and> w = 224 \<longrightarrow>
         map (\<lambda>k. map_option (\<lambda>t. (height t, width t)) (out k))
           [''res2'', ''res3'', ''res4'', ''res5'']
         = [Some (56, 56), Some (28, 28), Some (14, 14), Some (7, 7)])"
proof -
  have ok: "bn_ok tr n ((h + 3) div 32) ((w + 3) div 32)"
    using assms(5) by (simp add: bn_ok_iff)
  obtain chans :: "nat list" where cfg: "(build, chans) = (vovnet57, [256, 512, 768, 1024])
         \<or> (build, chans) = (vovnet39, [256, 512, 768, 1024])
         \<or> (build, chans) = (vovnet27_slim, [128, 256, 384, 512])"
    using assms(1) by auto
  from named_forward [OF cfg assms(3,4) ok, of loader progress kwargs]
  obtain m where m: "build loader False progress kwargs = Inr m"
    and fw: "VoVNet_forward (train tr m) (Tensor n 3 h w) =
         Inr [''res2'' \<mapsto> Tensor n (chans ! 0) ((h + 3) div 4) ((w + 3) div 4),
              ''res3'' \<mapsto> Tensor n (chans ! 1) ((h + 3) div 8) ((w + 3) div 8),
              ''res4'' \<mapsto> Tensor n (chans ! 2) ((h + 3) div 16) ((w + 3) div 16),
              ''res5'' \<mapsto> Tensor n (chans ! 3) ((h + 3) div 32) ((w + 3) div 32)]"
    by blast
  have exact: "4 * ((a + 3) div 4) = a \<and> 8 * ((a + 3) div 8) = a
      \<and> 16 * ((a + 3) div 16) = a \<and> 32 * ((a + 3) div 32) = a" if "32 dvd a" for a :: nat
  proof -
    from that obtain k where "a = 32 * k" by auto
    then show ?thesis by simp presburger
  qed
  show ?thesis
    apply (rule exI [of _ m])
    apply (rule exI [of _ "[''res2'' \<mapsto> Tensor n (chans ! 0) ((h + 3) div 4) ((w + 3) div 4),
              ''res3'' \<mapsto> Tensor n (chans ! 1) ((h + 3) div 8) ((w + 3) div 8),
              ''res4'' \<mapsto> Tensor n (chans ! 2) ((h + 3) div 16) ((w + 3) div 16),
              ''res5'' \<mapsto> Tensor n (chans ! 3) ((h + 3) div 32) ((w + 3) div 32)]"])
    using m fw exact [of h] exact [of w] apply simp
    done
qed

theorem VoVNet_output_strides_witness:
  "(0::nat) < 1 \<and> (29::nat) \<le> 224 \<and> (1::nat) * ((224 + 3) div 32) * ((224 + 3) div 32) \<noteq> 1
   \<and> (32::nat) dvd 224
   \<and> (\<exists>m out.
      vovnet27_slim (\<lambda>url progress model. Inr model) False True None = Inr m
    \<and> VoVNet_forward (train False m) (Tensor 1 3 224 224) = Inr out
    \<and> map (\<lambda>k. map_option height (out k)) [''res2'', ''res3'', ''res4'', ''res5'']
        = [Some 56, Some 28, Some 14, Some 7]
    \<and> map (\<lambda>k. map_option width (out k)) [''res2'', ''res3'', ''res4'', ''res5'']
        = [Some 56, Some 28, Some 14, Some 7]
    \<and> map (\<lambda>(k, s). map_option (\<lambda>t. s * height t) (out k))
           [(''res2'', 4), (''res3'', 8), (''res4'', 16), (''res5'', 32)]
         = [Some 224, Some 224, Some 224, Some 224])"
proof -
  have d: "(32::nat) dvd 224" by simp
  from VoVNet_output_strides [of vovnet27_slim 1 224 224 False
      "\<lambda>url progress model. Inr model" True None] d
  show ?thesis by simp blast
qed

section \<open>The stem\<close>

lemma VoVNet_init_fields:
  assumes "VoVNet_init cs cc blocks L num_classes = Inr m"
  shows "stem m = stem_modules"
    and "map_of (stages m) ''stage2'' = Some (OSA_stage_init 128 (cs ! 0) (cc ! 0) (blocks ! 0) L 2)"
    and "training m = True"
proof -
  from VoVNet_init_lengths [OF assms]
  have len: "4 \<le> length cs" "4 \<le> length cc" "4 \<le> length blocks" by simp_all
  from assms VoVNet_init_ok [OF len, of L num_classes]
  have m: "m = \<lparr> stem = stem_modules,
           stage_names = [''stage2'', ''stage3'', ''stage4'', ''stage5''],
           stages =
             [(''stage2'', OSA_stage_init 128 (cs ! 0) (cc ! 0) (blocks ! 0) L 2),
              (''stage3'', OSA_stage_init (cc ! 0) (cs ! 1) (cc ! 1) (blocks ! 1) L 3),
              (''stage4'', OSA_stage_init (cc ! 1) (cs ! 2) (cc ! 2) (blocks ! 2) L 4),
              (''stage5'', OSA_stage_init (cc ! 2) (cs ! 3) (cc ! 3) (blocks ! 3) L 5)],
           classifier = (last cc, num_classes),
           training = True \<rparr>"
    by simp
  show "stem m = stem_modules" by (simp add: m)
  show "map_of (stages m) ''stage2'' = Some (OSA_stage_init 128 (cs ! 0) (cc ! 0) (blocks ! 0) L 2)"
    by (simp add: m)
  show "training m = True" by (simp add: m)
qed

lemma stem_modules_layers:
  "map snd stem_modules =
     [Conv2d 3 64 3 2 1 1, BatchNorm2d 64, ReLU True,
      Conv2d 64 64 3 1 1 1, BatchNorm2d 64, ReLU True,
      Conv2d 64 128 3 2 1 1, BatchNorm2d 128, ReLU True]"
  by (simp add: stem_modules_def conv3x3_def)

text \<open>
  Claim C6. In every backbone that \<^verbatim>\<open>VoVNet.__init__\<close> constructs, the stem is three
  3x3 Conv-Norm-Act units with strides 2, 1, 2 and channels 3 to 64, 64 to 64 and 64 to
  128. On an input of three channels it returns 128 channels with extents
  \<open>(h + 3) div 4\<close>, that is \<open>h / 4\<close> when 4 divides \<open>h\<close>, and stage 2, which the
  forward pass applies to this result, is built for 128 input channels.
\<close>

theorem VoVNet_stem:
  assumes "VoVNet_init cs cc blocks L num_classes = Inr m"
    and "0 < n" "0 < h" "0 < w"
    and "tr \<longrightarrow> n * ((h + 3) div 4) * ((w + 3) div 4) \<noteq> 1"
  shows "map snd (stem m) =
           [Conv2d 3 64 3 2 1 1, BatchNorm2d 64, ReLU True,
            Conv2d 64 64 3 1 1 1, BatchNorm2d 64, ReLU True,
            Conv2d 64 128 3 2 1 1, BatchNorm2d 128, ReLU True]
       \<and> stem m = conv3x3 3 64 ''stem'' ''1'' 2 1 3 1 @ conv3x3 64 64 ''stem'' ''2'' 1 1 3 1
                    @ conv3x3 64 128 ''stem'' ''3'' 2 1 3 1
       \<and> Sequential_forward (module_forward tr) (stem m) (Tensor n 3 h w) =
           Inr (Tensor n 128 ((h + 3) div 4) ((w + 3) div 4))
       \<and> (4 dvd h \<and> 4 dvd w \<longrightarrow>
           Sequential_forward (module_forward tr) (stem m) (Tensor n 3 h w) =
             Inr (Tensor n 128 (h div 4) (w div 4)))
       \<and> map_of (stages m) ''stage2'' =
           Some (OSA_stage_init 128 (cs ! 0) (cc ! 0) (blocks ! 0) L 2)"
proof -
  note fields = VoVNet_init_fields [OF assms(1)]
  have ok: "bn_ok tr n ((h + 3) div 4) ((w + 3) div 4)"
    using assms(5) by (simp add: bn_ok_iff)
  have fw: "Sequential_forward (module_forward tr) (stem m) (Tensor n 3 h w) =
           Inr (Tensor n 128 ((h + 3) div 4) ((w + 3) div 4))"
    unfolding fields(1) using assms(3,4) ok by (rule stem_forward)
  have exact: "(a + 3) div 4 = a div 4" if "4 dvd a" for a :: nat
    using that by presburger
  show ?thesis
    using fields(2) fw stem_modules_layers
    by (simp add: fields(1) exact stem_modules_def)
qed

theorem VoVNet_stem_witness:
  "VoVNet_init [128, 160, 192, 224] [256, 512, 768, 1024] [1, 1, 2, 2] 5 1000
     = Inr \<lparr> stem = stem_modules,
           stage_names = [''stage2'', ''stage3'', ''stage4'', ''stage5''],
           stages =
             [(''stage2'', OSA_stage_init 128 128 256 1 5 2),
              (''stage3'', OSA_stage_init 256 160 512 1 5 3),
              (''stage4'', OSA_stage_init 512 192 768 2 5 4),
              (''stage5'', OSA_stage_init 768 224 1024 2 5 5)],
           classifier = (1024, 1000),
           training = True \<rparr>
   \<and> (0::nat) < 1 \<and> (0::nat) < 224 \<and> (1::nat) * ((224 + 3) div 4) * ((224 + 3) div 4) \<noteq> 1
   \<and> (4::nat) dvd 224
   \<and> Sequential_forward (module_forward True) stem_modules (Tensor 1 3 224 224) =
        Inr (Tensor 1 128 56 56)"
proof -
  have init: "VoVNet_init [128, 160, 192, 224] [256, 512, 768, 1024] [1, 1, 2, 2] 5 1000
     = Inr \<lparr> stem = stem_modules,
           stage_names = [''stage2'', ''stage3'', ''stage4'', ''stage5''],
           stages =
             [(''stage2'', OSA_stage_init 128 128 256 1 5 2),
              (''stage3'', OSA_stage_init 256 160 512 1 5 3),
              (''stage4'', OSA_stage_init 512 192 768 2 5 4),
              (''stage5'', OSA_stage_init 768 224 1024 2 5 5)],
           classifier = (1024, 1000),
           training = True \<rparr>"
    using VoVNet_init_ok [of "[128, 160, 192, 224]" "[256, 512, 768, 1024]" "[1, 1, 2, 2]" 5 1000]
    by simp
  have d: "(4::nat) dvd 224" by simp
  from VoVNet_stem [OF init, of 1 224 224 True] d init show ?thesis
    by simp
qed

section \<open>The shape description and the pretrained weights\<close>

text \<open>
  Claim C1, at the slim configuration. \<^verbatim>\<open>output_shape\<close> reports the constants 256,
  512, 768 and 1024 whatever the configuration, while the maps that the forward pass of
  the slim backbone returns have 128, 256, 384 and 512 channels.
\<close>

theorem output_shape_slim:
  "\<exists>m out. vovnet27_slim loader False progress kwargs = Inr m
     \<and> VoVNet_forward m (Tensor 1 3 224 224) = Inr out
     \<and> map (\<lambda>k. map_option spec_channels (VoVNet_output_shape m k))
         [''res2'', ''res3'', ''res4'', ''res5''] = [Some 256, Some 512, Some 768, Some 1024]
     \<and> map (\<lambda>k. map_option channels (out k))
         [''res2'', ''res3'', ''res4'', ''res5''] = [Some 128, Some 256, Some 384, Some 512]"
proof -
  have cfg: "(vovnet27_slim, [128, 256, 384, 512]) = (vovnet57, [256, 512, 768, 1024])
         \<or> (vovnet27_slim, [128, 256, 384, 512]) = (vovnet39, [256, 512, 768, 1024])
         \<or> (vovnet27_slim, [128, 256, 384, 512]) = (vovnet27_slim, [128, 256, 384, 512::nat])"
    by simp
  have ok: "bn_ok True 1 ((224 + 3) div 32) ((224 + 3) div 32)"
    by (simp add: bn_ok_def)
  from named_forward [OF cfg _ _ ok, of loader progress kwargs]
  obtain m where m: "vovnet27_slim loader False progress kwargs = Inr m"
    and fw: "VoVNet_forward (train True m) (Tensor 1 3 224 224) =
         Inr [''res2'' \<mapsto> Tensor 1 128 56 56, ''res3'' \<mapsto> Tensor 1 256 28 28,
              ''res4'' \<mapsto> Tensor 1 384 14 14, ''res5'' \<mapsto> Tensor 1 512 7 7]"
    by auto
  have "train True m = m"
    using m train_init by (simp add: named_builders)
  with fw have "VoVNet_forward m (Tensor 1 3 224 224) =
         Inr [''res2'' \<mapsto> Tensor 1 128 56 56, ''res3'' \<mapsto> Tensor 1 256 28 28,
              ''res4'' \<mapsto> Tensor 1 384 14 14, ''res5'' \<mapsto> Tensor 1 512 7 7]"
    by simp
  with m show ?thesis
    by (simp add: VoVNet_output_shape_def)
qed

text \<open>
  Claim C8, at \<^verbatim>\<open>vovnet27_slim(pretrained=True)\<close>. The name
  \<^verbatim>\<open>load_state_dict_from_url\<close> is bound nowhere in the module, so with the flag set
  every builder raises \<^verbatim>\<open>NameError\<close> before \<^verbatim>\<open>model_urls[arch]\<close> is read, also
  for the architecture names that the table holds. Without the flag the builder returns
  the constructed model, whatever the name and the table.
\<close>

theorem pretrained_NameError:
  "vovnet27_slim loader True progress kwargs = Inl NameError
   \<and> map_of model_urls ''vovnet27_slim'' = None
   \<and> vovnet39 loader True progress kwargs = Inl NameError
   \<and> vovnet57 loader True progress kwargs = Inl NameError
   \<and> vovnet loader arch cs cc blocks L False progress kwargs =
       VoVNet_init cs cc blocks L (case kwargs of None \<Rightarrow> 1000 | Some k \<Rightarrow> k)"
proof -
  have unbound: "''load_state_dict_from_url'' \<notin> set module_globals"
    by (simp add: module_globals_def)
  have raises: "vovnet loader a [c1, c2, c3, c4] [d1, d2, d3, d4] [b1, b2, b3, b4] 5 True
      progress kwargs = Inl NameError" for a c1 c2 c3 c4 d1 d2 d3 d4 b1 b2 b3 b4
    using unbound VoVNet_init_ok [of "[c1, c2, c3, c4]" "[d1, d2, d3, d4]" "[b1, b2, b3, b4]" 5]
    by (simp add: vovnet_def)
  have plain: "vovnet loader arch cs cc blocks L False progress kwargs =
       VoVNet_init cs cc blocks L (case kwargs of None \<Rightarrow> 1000 | Some k \<Rightarrow> k)"
    by (simp add: vovnet_def split: sum.splits)
  show ?thesis
    using plain by (simp add: vovnet27_slim_def vovnet39_def vovnet57_def raises model_urls_def)
qed

section \<open>The residual addition\<close>

lemma unit_success:
  assumes "Sequential_forward (module_forward tr)
             [(n1, Conv2d c_in c_out k s p g), (n2, BatchNorm2d c_out), (n3, ReLU ip)] x = Inr y"
  shows "channels x = c_in \<and> k \<le> height x + 2 * p \<and> k \<le> width x + 2 * p
       \<and> y = Tensor (batch x) c_out (conv_output_size (height x) k s p)
                (conv_output_size (width x) k s p)"
  using assms by (auto split: if_splits)

lemma OSA_layers_forward_prefix:
  "OSA_layers_forward tr ls x out = Inr (y, output) \<Longrightarrow> \<exists>ys. output = out @ ys"
proof (induction ls arbitrary: x out)
  case Nil
  then show ?case by simp
next
  case (Cons l ls)
  from Cons.prems obtain x2 where
    "OSA_layers_forward tr ls x2 (out @ [x2]) = Inr (y, output)"
    by (auto split: sum.splits)
  from Cons.IH [OF this] show ?case by auto
qed

lemma OSA_layers_forward_first:
  assumes "OSA_layers_forward tr (conv3x3 c_in c_out name pf s g k p # ls) x out = Inr r"
  shows "channels x = c_in"
proof -
  from assms obtain y where
    "Sequential_forward (module_forward tr) (conv3x3 c_in c_out name pf s g k p) x = Inr y"
    by (cases "Sequential_forward (module_forward tr) (conv3x3 c_in c_out name pf s g k p) x")
       simp_all
  then show ?thesis
    unfolding conv3x3_def by (rule unit_success [THEN conjunct1])
qed

lemma torch_cat_head:
  "torch_cat (x # ys) = Inr c \<Longrightarrow> batch c = batch x \<and> height c = height x \<and> width c = width x
     \<and> channels c = sum_list (map channels (x # ys))"
  by (auto split: if_splits)

lemma OSA_module_aggregate_success:
  assumes "OSA_module_aggregate tr (OSA_module_init in_ch stage_ch concat_ch L name ident) x = Inr xt"
  shows "channels x = in_ch \<and> xt = Tensor (batch x) concat_ch (height x) (width x)"
proof -
  let ?m = "OSA_module_init in_ch stage_ch concat_ch L name ident"
  from assms obtain y outs c where
    loop: "OSA_layers_forward tr (layers ?m) x [x] = Inr (y, outs)"
    and cat: "torch_cat outs = Inr c"
    and red: "Sequential_forward (module_forward tr) (concat_seq ?m) c = Inr xt"
    unfolding OSA_module_aggregate_def by (auto split: sum.splits prod.splits)
  from OSA_layers_forward_prefix [OF loop] obtain ys where outs: "outs = x # ys" by auto
  from cat have c: "batch c = batch x" "height c = height x" "width c = width x"
    "channels c = sum_list (map channels (x # ys))"
    using torch_cat_head [of x ys c] unfolding outs by simp_all
  from red have "Sequential_forward (module_forward tr)
      [(name @ ''_'' @ ''concat'' @ ''/conv'', Conv2d (in_ch + L * stage_ch) concat_ch 1 1 0 1),
       (name @ ''_'' @ ''concat'' @ ''/norm'', BatchNorm2d concat_ch),
       (name @ ''_'' @ ''concat'' @ ''/relu'', ReLU True)] c = Inr xt"
    unfolding OSA_module_init_concat conv1x1_def .
  from unit_success [OF this]
  have r: "channels c = in_ch + L * stage_ch" "1 \<le> height c" "1 \<le> width c"
    "xt = Tensor (batch c) concat_ch (conv_output_size (height c) 1 1 0)
            (conv_output_size (width c) 1 1 0)"
    by simp_all
  have xt: "xt = Tensor (batch x) concat_ch (height x) (width x)"
    using r(2-4) c(1-3) by (simp add: conv_output_size_def)
  have "channels x = in_ch"
  proof (cases L)
    case 0
    then have "layers ?m = []" by (simp add: OSA_module_init_layers)
    with loop have "outs = [x]" by auto
    with outs c(4) r(1) 0 show ?thesis by simp
  next
    case (Suc L')
    have "[0..<Suc L'] = 0 # [1..<Suc L']" by (simp add: upt_conv_Cons del: upt_Suc)
    then have "layers ?m = conv3x3 in_ch stage_ch name (str 0) 1 1 3 1
        # map (\<lambda>i. conv3x3 (if i = 0 then in_ch else stage_ch) stage_ch name (str i) 1 1 3 1)
            [1..<Suc L']"
      by (simp add: OSA_module_init_layers Suc del: upt_Suc)
    with loop have "OSA_layers_forward tr (conv3x3 in_ch stage_ch name (str 0) 1 1 3 1
        # map (\<lambda>i. conv3x3 (if i = 0 then in_ch else stage_ch) stage_ch name (str i) 1 1 3 1)
            [1..<Suc L']) x [x] = Inr (y, outs)"
      by (simp only:)
    then show ?thesis by (rule OSA_layers_forward_first)
  qed
  with xt show ?thesis by simp
qed

lemma tensor_add_channels:
  "tensor_add (Tensor n c h w) (Tensor n c' h w) =
     (if c = c' \<or> c' = 1 then Inr (Tensor n c h w)
      else if c = 1 then Inr (Tensor n c' h w) else Inl RuntimeError)"
  by (auto simp: tensor_add_def broadcast_def)

lemma stage_identity_modules:
  assumes "m \<in> set (OSA_modules (OSA_stage_init in_ch stage_ch concat_ch blocks L s))"
    and "identity m"
  shows "\<exists>name. m = OSA_module_init concat_ch stage_ch concat_ch L name True"
  using assms by (auto simp: OSA_modules_init OSA_module_init_identity)

lemma identity_module_forward:
  assumes "OSA_module_aggregate tr (OSA_module_init c stage_ch c L name True) x = Inr xt"
  shows "xt = x" and "tensor_add xt x = Inr xt"
    and "OSA_module_forward tr (OSA_module_init c stage_ch c L name True) x = Inr xt"
proof -
  from OSA_module_aggregate_success [OF assms]
  have "channels x = c" "xt = Tensor (batch x) c (height x) (width x)" by simp_all
  then show "xt = x" by (cases x) simp
  then show "tensor_add xt x = Inr xt" by (simp add: tensor_add_same)
  then show "OSA_module_forward tr (OSA_module_init c stage_ch c L name True) x = Inr xt"
    using assms by (simp add: OSA_module_forward_def OSA_module_init_identity)
qed

text \<open>
  Claim C10. Every identity-mode module of a stage that \<^verbatim>\<open>_OSA_stage\<close> builds was
  constructed with \<open>concat_ch\<close> as input and as output channel count. For such a
  module, in any mode and on any input: whenever the forward pass reaches the addition,
  the reduced map and the module's input have the same shape, the addition succeeds and
  the module returns. For a module constructed directly, the two operands of the
  addition can differ only if it is in identity mode with \<open>in_ch \<noteq> concat_ch\<close>.
\<close>

theorem identity_addition_shapes:
  "(\<forall>m \<in> set (OSA_modules (OSA_stage_init in_ch stage_ch concat_ch blocks L s)).
      identity m \<longrightarrow>
        (\<exists>name. m = OSA_module_init concat_ch stage_ch concat_ch L name True)
      \<and> (\<forall>tr x xt. OSA_module_aggregate tr m x = Inr xt \<longrightarrow>
            xt = x \<and> tensor_add xt x = Inr xt \<and> OSA_module_forward tr m x = Inr xt))
   \<and> (\<forall>c_in name ident tr x xt.
        OSA_module_aggregate tr (OSA_module_init c_in stage_ch concat_ch L name ident) x = Inr xt
        \<and> xt \<noteq> x \<longrightarrow> c_in \<noteq> concat_ch)
   \<and> (\<forall>c_in name ident tr x xt e.
        OSA_module_aggregate tr (OSA_module_init c_in stage_ch concat_ch L name ident) x = Inr xt
        \<and> OSA_module_forward tr (OSA_module_init c_in stage_ch concat_ch L name ident) x = Inl e
        \<longrightarrow> ident \<and> c_in \<noteq> concat_ch)"
proof (intro conjI ballI impI allI)
  fix m
  assume "m \<in> set (OSA_modules (OSA_stage_init in_ch stage_ch concat_ch blocks L s))"
    and "identity m"
  then show "\<exists>name. m = OSA_module_init concat_ch stage_ch concat_ch L name True"
    by (rule stage_identity_modules)
next
  fix m tr x xt
  assume "m \<in> set (OSA_modules (OSA_stage_init in_ch stage_ch concat_ch blocks L s))"
    and "identity m"
  then obtain name where m: "m = OSA_module_init concat_ch stage_ch concat_ch L name True"
    using stage_identity_modules by blast
  assume "OSA_module_aggregate tr m x = Inr xt"
  then have agg: "OSA_module_aggregate tr (OSA_module_init concat_ch stage_ch concat_ch L name True) x
      = Inr xt" by (simp add: m)
  from identity_module_forward [OF agg]
  show "xt = x" "tensor_add xt x = Inr xt" "OSA_module_forward tr m x = Inr xt"
    by (simp_all add: m)
next
  fix c_in name ident tr x xt
  assume a: "OSA_module_aggregate tr (OSA_module_init c_in stage_ch concat_ch L name ident) x = Inr xt
      \<and> xt \<noteq> x"
  from OSA_module_aggregate_success [of tr c_in stage_ch concat_ch L name ident x xt] a
  have "channels x = c_in" "xt = Tensor (batch x) concat_ch (height x) (width x)" by simp_all
  with a show "c_in \<noteq> concat_ch" by (cases x) auto
next
  fix c_in name ident tr x xt e
  assume a: "OSA_module_aggregate tr (OSA_module_init c_in stage_ch concat_ch L name ident) x = Inr xt
      \<and> OSA_module_forward tr (OSA_module_init c_in stage_ch concat_ch L name ident) x = Inl e"
  then show "ident"
    by (auto simp: OSA_module_forward_def OSA_module_init_identity split: if_splits)
  show "c_in \<noteq> concat_ch"
  proof
    assume "c_in = concat_ch"
    with a \<open>ident\<close> identity_module_forward(3) [of tr concat_ch stage_ch L name x xt]
    show False by simp
  qed
qed

theorem identity_addition_shapes_witness:
  "OSA_module_init 768 192 768 5 (OSA_name 4 2) True
     \<in> set (OSA_modules (OSA_stage_init 512 192 768 2 5 4))
   \<and> identity (OSA_module_init 768 192 768 5 (OSA_name 4 2) True)
   \<and> OSA_module_aggregate True (OSA_module_init 768 192 768 5 (OSA_name 4 2) True)
       (Tensor 1 768 14 14) = Inr (Tensor 1 768 14 14)
   \<and> tensor_add (Tensor 1 768 14 14) (Tensor 1 768 14 14) = Inr (Tensor 1 768 14 14)
   \<and> OSA_module_forward True (OSA_module_init 768 192 768 5 (OSA_name 4 2) True)
       (Tensor 1 768 14 14) = Inr (Tensor 1 768 14 14)
   \<and> OSA_module_aggregate True (OSA_module_init 64 32 128 5 ''OSA'' True) (Tensor 2 64 8 8)
       = Inr (Tensor 2 128 8 8)
   \<and> Tensor 2 128 8 8 \<noteq> Tensor 2 64 8 8
   \<and> (64::nat) \<noteq> 128"
proof -
  let ?m = "OSA_module_init 768 192 768 5 (OSA_name 4 2) True"
  have mem: "?m \<in> set (OSA_modules (OSA_stage_init 512 192 768 2 5 4))"
    by (simp add: OSA_modules_init numeral_2_eq_2)
  have ident: "identity ?m" by (simp add: OSA_module_init_identity)
  have agg: "OSA_module_aggregate True ?m (Tensor 1 768 14 14) = Inr (Tensor 1 768 14 14)"
    by (rule OSA_module_aggregate_init) (simp_all add: bn_ok_def)
  have agg2: "OSA_module_aggregate True (OSA_module_init 64 32 128 5 ''OSA'' True) (Tensor 2 64 8 8)
       = Inr (Tensor 2 128 8 8)"
    by (rule OSA_module_aggregate_init) (simp_all add: bn_ok_def)
  note inst = identity_addition_shapes [of 512 192 768 2 5 4]
  from inst mem ident agg
  have "tensor_add (Tensor 1 768 14 14) (Tensor 1 768 14 14) = Inr (Tensor 1 768 14 14)
      \<and> OSA_module_forward True ?m (Tensor 1 768 14 14) = Inr (Tensor 1 768 14 14)"
    by blast
  with mem ident agg agg2 show ?thesis by simp
qed

lemma identity_forward_general:
  assumes "0 < stage_ch" "0 < concat_ch" "0 < h" "0 < w" "bn_ok tr n h w"
  shows "OSA_module_forward tr (OSA_module_init in_ch stage_ch concat_ch L name True)
           (Tensor n in_ch h w) =
         tensor_add (Tensor n concat_ch h w) (Tensor n in_ch h w)"
  using OSA_module_aggregate_init [OF assms, of in_ch L name True]
  by (simp add: OSA_module_forward_def OSA_module_init_identity)

text \<open>
  Claim C7 as stated fails: the constructor has no check. The module below is in
  identity mode with 64 input channels and 128 output channels; it is constructed, its
  forward pass runs through the reduction and raises only at the addition. The same holds
  for a stage that holds such a module.
\<close>

theorem identity_mismatch_constructed:
  "identity (OSA_module_init 64 32 128 5 ''OSA2_2'' True)
   \<and> OSA_module_aggregate True (OSA_module_init 64 32 128 5 ''OSA2_2'' True) (Tensor 2 64 8 8)
       = Inr (Tensor 2 128 8 8)
   \<and> OSA_module_forward True (OSA_module_init 64 32 128 5 ''OSA2_2'' True) (Tensor 2 64 8 8)
       = Inl RuntimeError
   \<and> OSA_stage_forward True
       (add_module (OSA_stage_init 128 128 256 1 5 2) ''OSA2_2''
          (OSA (OSA_module_init 256 128 128 5 ''OSA2_2'' True)))
       (Tensor 2 128 8 8) = Inl RuntimeError"
proof -
  have ok: "bn_ok True 2 8 8" by (simp add: bn_ok_def)
  have agg: "OSA_module_aggregate True (OSA_module_init 64 32 128 5 ''OSA2_2'' True)
      (Tensor 2 64 8 8) = Inr (Tensor 2 128 8 8)"
    using ok by (intro OSA_module_aggregate_init) simp_all
  have fw: "OSA_module_forward True (OSA_module_init 64 32 128 5 ''OSA2_2'' True)
      (Tensor 2 64 8 8) = Inl RuntimeError"
    using identity_forward_general [of 32 128 8 8 True 2 64 5 "''OSA2_2''"] ok
    by (simp add: tensor_add_channels)
  have stage: "add_module (OSA_stage_init 128 128 256 1 5 2) ''OSA2_2''
          (OSA (OSA_module_init 256 128 128 5 ''OSA2_2'' True))
      = [(''OSA2_1'', OSA (OSA_module_init 128 128 256 5 ''OSA2_1'' False)),
         (''OSA2_2'', OSA (OSA_module_init 256 128 128 5 ''OSA2_2'' True))]"
    by (simp add: OSA_stage_init_children add_module_def OSA_name_def str_small str_Suc_0)
  have first: "OSA_module_forward True (OSA_module_init 128 128 256 5 ''OSA2_1'' False)
      (Tensor 2 128 8 8) = Inr (Tensor 2 256 8 8)"
    using ok by (intro OSA_module_forward_init) simp_all
  have second: "OSA_module_forward True (OSA_module_init 256 128 128 5 ''OSA2_2'' True)
      (Tensor 2 256 8 8) = Inl RuntimeError"
    using identity_forward_general [of 128 128 8 8 True 2 256 5 "''OSA2_2''"] ok
    by (simp add: tensor_add_channels)
  have "OSA_stage_forward True
       (add_module (OSA_stage_init 128 128 256 1 5 2) ''OSA2_2''
          (OSA (OSA_module_init 256 128 128 5 ''OSA2_2'' True)))
       (Tensor 2 128 8 8) = Inl RuntimeError"
    unfolding stage OSA_stage_forward_def using first second by simp
  with agg fw show ?thesis by (simp add: OSA_module_init_identity)
qed

text \<open>
  Claim C7, as the code has it. An identity-mode module is constructed whatever its
  channel counts. On an input with \<open>in_ch\<close> channels that the units accept, its forward
  pass computes the reduced map of \<open>concat_ch\<close> channels and then adds the input: with
  \<open>in_ch = concat_ch\<close> the module returns; with different counts, neither of them 1,
  the addition raises the runtime's error, at forward-pass time and on every such input
  (a count of 1 is broadcast instead).
\<close>

theorem identity_mismatch_at_forward:
  assumes "0 < in_ch" "0 < stage_ch" "0 < concat_ch"
    and "0 < n" "0 < h" "0 < w" "tr \<longrightarrow> n * h * w \<noteq> 1"
  shows "identity (OSA_module_init in_ch stage_ch concat_ch L name True)
    \<and> OSA_module_aggregate tr (OSA_module_init in_ch stage_ch concat_ch L name True)
        (Tensor n in_ch h w) = Inr (Tensor n concat_ch h w)
    \<and> OSA_module_forward tr (OSA_module_init in_ch stage_ch concat_ch L name True)
        (Tensor n in_ch h w) = tensor_add (Tensor n concat_ch h w) (Tensor n in_ch h w)
    \<and> (in_ch = concat_ch \<longrightarrow>
        OSA_module_forward tr (OSA_module_init in_ch stage_ch concat_ch L name True)
          (Tensor n in_ch h w) = Inr (Tensor n concat_ch h w))
    \<and> (in_ch \<noteq> concat_ch \<and> in_ch \<noteq> 1 \<and> concat_ch \<noteq> 1 \<longrightarrow>
        OSA_module_forward tr (OSA_module_init in_ch stage_ch concat_ch L name True)
          (Tensor n in_ch h w) = Inl RuntimeError)"
proof -
  have ok: "bn_ok tr n h w" using assms(7) by (simp add: bn_ok_iff)
  note agg = OSA_module_aggregate_init [OF assms(2,3,5,6) ok, of in_ch L name True]
  note fw = identity_forward_general [OF assms(2,3,5,6) ok, of in_ch L name]
  let ?fw = "OSA_module_forward tr (OSA_module_init in_ch stage_ch concat_ch L name True)
      (Tensor n in_ch h w)"
  have val: "?fw = (if concat_ch = in_ch \<or> in_ch = 1 then Inr (Tensor n concat_ch h w)
      else if concat_ch = 1 then Inr (Tensor n in_ch h w) else Inl RuntimeError)"
    using fw by (simp only: tensor_add_channels)
  have same: "in_ch = concat_ch \<longrightarrow> ?fw = Inr (Tensor n concat_ch h w)"
    unfolding val by simp
  have differ: "in_ch \<noteq> concat_ch \<and> in_ch \<noteq> 1 \<and> concat_ch \<noteq> 1 \<longrightarrow> ?fw = Inl RuntimeError"
    unfolding val by simp
  have ident: "identity (OSA_module_init in_ch stage_ch concat_ch L name True)"
    by (simp add: OSA_module_init_identity)
  from ident agg fw same differ show ?thesis by blast
qed

theorem identity_mismatch_at_forward_witness:
  "(0::nat) < 256 \<and> (0::nat) < 128 \<and> (0::nat) < 2 \<and> (0::nat) < 8 \<and> (2::nat) * 8 * 8 \<noteq> 1
   \<and> (256::nat) \<noteq> 128 \<and> (256::nat) \<noteq> 1 \<and> (128::nat) \<noteq> 1
   \<and> identity (OSA_module_init 256 128 128 5 ''OSA2_2'' True)
   \<and> OSA_module_aggregate True (OSA_module_init 256 128 128 5 ''OSA2_2'' True)
        (Tensor 2 256 8 8) = Inr (Tensor 2 128 8 8)
   \<and> OSA_module_forward True (OSA_module_init 256 128 128 5 ''OSA2_2'' True)
        (Tensor 2 256 8 8) = Inl RuntimeError"
  using identity_mismatch_at_forward [of 256 128 128 2 8 8 True 5 "''OSA2_2''"]
  by (simp add: tensor_add_channels)

section \<open>Two evaluations of the forward pass\<close>

lemma extends_refl [simp]: "extends st st"
  by (simp add: extends_def)

lemma extends_trans: "extends st st' \<Longrightarrow> extends st' st'' \<Longrightarrow> extends st st''"
  by (auto simp: extends_def)

lemma extends_length: "extends st st' \<Longrightarrow> length (store st) \<le> length (store st')"
  by (auto simp: extends_def)

lemma extends_nth: "extends st st' \<Longrightarrow> a < length (store st) \<Longrightarrow> store st' ! a = store st ! a"
  by (auto simp: extends_def nth_append)

lemma new_cell_Inl [simp]: "new_cell (Inl e) st = (Inl e, st)"
  by (simp add: new_cell_def)

lemma new_cell_Inr [simp]:
  "new_cell (Inr y) st = (Inr (length (store st)), st\<lparr>store := store st @ [y]\<rparr>)"
  by (simp add: new_cell_def)

lemma then_run_Inl [simp]: "then_run (Inl e, st) f = (Inl e, st)"
  by (simp add: then_run_def)

lemma then_run_Inr [simp]: "then_run (Inr b, st) f = f b st"
  by (simp add: then_run_def)

lemma computesI:
  assumes "\<And>a st. a < length (store st) \<Longrightarrow> extends st (snd (F a st))"
    and "\<And>a st. a < length (store st) \<Longrightarrow> \<not> mode \<Longrightarrow> buffers (snd (F a st)) = buffers st"
    and "\<And>a st e. a < length (store st) \<Longrightarrow> f (visible mode (buffers st)) (store st ! a) = Inl e
           \<Longrightarrow> fst (F a st) = Inl e"
    and "\<And>a st v. a < length (store st) \<Longrightarrow> f (visible mode (buffers st)) (store st ! a) = Inr v
           \<Longrightarrow> \<exists>b. fst (F a st) = Inr b \<and> b < length (store (snd (F a st)))
                \<and> store (snd (F a st)) ! b = v"
  shows "computes mode F f"
  unfolding computes_def using assms by blast

lemma computesD:
  assumes "computes mode F f" "a < length (store st)"
  shows "extends st (snd (F a st))"
    and "\<not> mode \<Longrightarrow> buffers (snd (F a st)) = buffers st"
    and "f (visible mode (buffers st)) (store st ! a) = Inl e \<Longrightarrow> fst (F a st) = Inl e"
    and "f (visible mode (buffers st)) (store st ! a) = Inr v
           \<Longrightarrow> \<exists>b. fst (F a st) = Inr b \<and> b < length (store (snd (F a st)))
                \<and> store (snd (F a st)) ! b = v"
  using assms unfolding computes_def by blast+

lemma computes_visible:
  assumes "computes mode F f" "a < length (store st)"
  shows "visible mode (buffers (snd (F a st))) = visible mode (buffers st)"
  using computesD(2) [OF assms] by (cases mode) (simp_all add: visible_def)

lemma computes_new_cell:
  "computes mode (\<lambda>a st. new_cell (g (store st ! a)) st) (\<lambda>vis. g)"
  by (rule computesI) (auto simp: extends_def new_cell_def split: sum.splits)

lemma computes_Conv2d:
  "computes mode (module_run K params mode path (Conv2d c_in c_out k s p g))
     (\<lambda>vis. conv2d K (Conv2d c_in c_out k s p g) (params path))"
proof -
  have "module_run K params mode path (Conv2d c_in c_out k s p g) =
      (\<lambda>a st. new_cell (conv2d K (Conv2d c_in c_out k s p g) (params path) (store st ! a)) st)"
    by (intro ext) simp
  then show ?thesis
    using computes_new_cell [of mode "conv2d K (Conv2d c_in c_out k s p g) (params path)"]
    by simp
qed

lemma computes_MaxPool2d:
  "computes mode (module_run K params mode path (MaxPool2d k s p c))
     (\<lambda>vis. max_pool2d K (MaxPool2d k s p c))"
proof -
  have "module_run K params mode path (MaxPool2d k s p c) =
      (\<lambda>a st. new_cell (max_pool2d K (MaxPool2d k s p c) (store st ! a)) st)"
    by (intro ext) simp
  then show ?thesis
    using computes_new_cell [of mode "max_pool2d K (MaxPool2d k s p c)"]
    by simp
qed

lemma computes_then_run:
  assumes F: "computes mode F f" and G: "computes mode G g"
  shows "computes mode (\<lambda>a st. then_run (F a st) G) (\<lambda>vis v. and_then (f vis v) (g vis))"
proof (rule computesI)
  fix a and st :: "('a, 'b) state"
  assume a: "a < length (store st)"
  note Fa = computesD [OF F a]
  note vis = computes_visible [OF F a]
  let ?v = "store st ! a" and ?vis = "visible mode (buffers st)"
  have split: "(\<exists>e. f ?vis ?v = Inl e \<and> then_run (F a st) G = (Inl e, snd (F a st)))
      \<or> (\<exists>v b. f ?vis ?v = Inr v \<and> fst (F a st) = Inr b \<and> b < length (store (snd (F a st)))
            \<and> store (snd (F a st)) ! b = v \<and> then_run (F a st) G = G b (snd (F a st)))"
  proof (cases "f ?vis ?v")
    case (Inl e)
    with Fa(3) have "fst (F a st) = Inl e" by simp
    with Inl show ?thesis by (simp add: then_run_def)
  next
    case (Inr v)
    with Fa(4) obtain b where "fst (F a st) = Inr b" "b < length (store (snd (F a st)))"
      "store (snd (F a st)) ! b = v" by blast
    with Inr show ?thesis by (simp add: then_run_def)
  qed
  show "extends st (snd (then_run (F a st) G))"
    using split Fa(1) computesD(1) [OF G] by (auto intro: extends_trans)
  show "buffers (snd (then_run (F a st) G)) = buffers st" if "\<not> mode"
    using split Fa(2) [OF that] computesD(2) [OF G _ that] by auto
  show "fst (then_run (F a st) G) = Inl e" if "and_then (f ?vis ?v) (g ?vis) = Inl e" for e
    using split that computesD(3) [OF G, of _ "snd (F a st)" e] vis
    by (auto simp: and_then_def)
  show "\<exists>b. fst (then_run (F a st) G) = Inr b \<and> b < length (store (snd (then_run (F a st) G)))
        \<and> store (snd (then_run (F a st) G)) ! b = v"
    if "and_then (f ?vis ?v) (g ?vis) = Inr v" for v
    using split that computesD(4) [OF G, of _ "snd (F a st)" v] vis
    by (auto simp: and_then_def)
qed

lemma then_run_return: "then_run r (\<lambda>b st. (Inr b, st)) = r"
  by (cases r) (auto simp: then_run_def split: sum.splits)

lemma then_run_assoc:
  "then_run (then_run r F) G = then_run r (\<lambda>b st. then_run (F b st) G)"
  by (cases r) (auto simp: then_run_def split: sum.splits)

lemma Sequential_run_Nil: "Sequential_run f path [] = (\<lambda>a st. (Inr a, st))"
  by (intro ext) simp

lemma Sequential_run_Cons:
  "Sequential_run f path (child # rest) =
     (\<lambda>a st. then_run (f (path @ [fst child]) (snd child) a st) (Sequential_run f path rest))"
  by (intro ext) simp

lemma Sequential_run_append:
  "Sequential_run f path (xs @ ys) =
     (\<lambda>a st. then_run (Sequential_run f path xs a st) (Sequential_run f path ys))"
proof (induction xs)
  case Nil
  show ?case by (intro ext) simp
next
  case (Cons x xs)
  show ?case by (intro ext) (simp add: Cons.IH then_run_assoc)
qed

lemma computes_norm_relu:
  "computes mode
     (\<lambda>a st. then_run (module_run K params mode p2 (BatchNorm2d c) a st)
                (module_run K params mode p3 (ReLU True)))
     (\<lambda>vis v. and_then (norm_value K params p2 (BatchNorm2d c) vis v) (\<lambda>b. Inr (relu K b)))"
proof (cases mode)
  case True
  show ?thesis
    by (rule computesI)
       (auto simp: True visible_def norm_value_def extends_def Let_def and_then_def
          split: sum.splits)
next
  case False
  show ?thesis
    by (rule computesI)
       (auto simp: False visible_def norm_value_def extends_def new_cell_def and_then_def
          split: sum.splits)
qed

lemma computes_unit:
  assumes "unit = [(n1, Conv2d c_in c_out k s p g), (n2, BatchNorm2d c), (n3, ReLU True)]"
  shows "computes mode (Sequential_run (module_run K params mode) path unit)
           (unit_value K params path unit)"
proof -
  have run: "Sequential_run (module_run K params mode) path unit =
      (\<lambda>a st. then_run (module_run K params mode (path @ [n1]) (Conv2d c_in c_out k s p g) a st)
         (\<lambda>a st. then_run (module_run K params mode (path @ [n2]) (BatchNorm2d c) a st)
                    (module_run K params mode (path @ [n3]) (ReLU True))))"
    unfolding assms Sequential_run_Cons Sequential_run_Nil then_run_return fst_conv snd_conv
    by (rule refl)
  have val: "unit_value K params path unit =
      (\<lambda>vis v. and_then (conv2d K (Conv2d c_in c_out k s p g) (params (path @ [n1])) v)
         (\<lambda>y. and_then (norm_value K params (path @ [n2]) (BatchNorm2d c) vis y)
                 (\<lambda>b. Inr (relu K b))))"
    by (intro ext) (simp add: unit_value_def assms)
  show ?thesis
    unfolding run val
    by (rule computes_then_run [OF computes_Conv2d computes_norm_relu])
qed

lemma functional_conv3x3:
  "functional mode (Sequential_run (module_run K params mode) path
     (conv3x3 c_in c_out name postfix s g k p))"
  unfolding functional_def conv3x3_def by (rule exI, rule computes_unit) simp

lemma functional_conv1x1:
  "functional mode (Sequential_run (module_run K params mode) path
     (conv1x1 c_in c_out name postfix s g k p))"
  unfolding functional_def conv1x1_def by (rule exI, rule computes_unit) simp

lemma functional_then_run:
  assumes "functional mode F" "functional mode G"
  shows "functional mode (\<lambda>a st. then_run (F a st) G)"
  using assms unfolding functional_def by (blast intro: computes_then_run)

lemma functional_append:
  assumes "functional mode (Sequential_run f path xs)" "functional mode (Sequential_run f path ys)"
  shows "functional mode (Sequential_run f path (xs @ ys))"
proof -
  show ?thesis
    unfolding Sequential_run_append by (rule functional_then_run [OF assms])
qed

lemma functional_stem:
  "functional mode (Sequential_run (module_run K params mode) path stem_modules)"
  unfolding stem_modules_def
  by (intro functional_append functional_conv3x3)

lemma record_run_computes:
  fixes Fs :: "(nat \<Rightarrow> ('v, 's) state \<Rightarrow> (py_error + nat) \<times> ('v, 's) state) list"
  assumes "\<forall>F \<in> set Fs. functional mode F"
  shows "\<exists>g. computes_list mode (record_run Fs) g"
  using assms
proof (induction Fs)
  case Nil
  show ?case
  proof (rule exI)
    show "computes_list mode (record_run []) (\<lambda>vis v. Inr [])"
      unfolding computes_list_def by simp
  qed
next
  case (Cons L Fs)
  from Cons.prems have "functional mode L" by simp
  then obtain f where f: "computes mode L f"
    unfolding functional_def by blast
  from Cons.IH Cons.prems obtain g where
    g: "computes_list mode (record_run Fs) g"
    by auto
  let ?G = "record_run Fs"
  let ?h = "\<lambda>vis v. and_then (f vis v) (\<lambda>y. and_then (g vis y) (\<lambda>vs. Inr (y # vs)))"
  have step: "computes_list mode (record_run (L # Fs)) ?h"
    unfolding computes_list_def
  proof (intro allI impI)
    fix x outp and st :: "('v, 's) state"
    assume x: "x < length (store st)"
    let ?R = "record_run (L # Fs) x outp st"
    let ?vis = "visible mode (buffers st)" and ?v = "store st ! x"
    note Lx = computesD [OF f x]
    note vis = computes_visible [OF f x]
    have split: "(\<exists>e. f ?vis ?v = Inl e \<and> ?R = (Inl e, snd (L x st)))
      \<or> (\<exists>y b. f ?vis ?v = Inr y \<and> b < length (store (snd (L x st)))
            \<and> store (snd (L x st)) ! b = y \<and> ?R = ?G b (outp @ [b]) (snd (L x st)))"
    proof (cases "f ?vis ?v")
      case (Inl e)
      with Lx(3) have "fst (L x st) = Inl e" by simp
      with Inl show ?thesis by (simp add: then_run_def)
    next
      case (Inr y)
      with Lx(4) obtain b where b: "fst (L x st) = Inr b" "b < length (store (snd (L x st)))"
        "store (snd (L x st)) ! b = y" by blast
      have "?R = ?G b (outp @ [b]) (snd (L x st))"
        using b(1) by (simp add: then_run_def)
      with Inr b(2,3) show ?thesis by blast
    qed
    show "extends st (snd ?R) \<and> (\<not> mode \<longrightarrow> buffers (snd ?R) = buffers st)
      \<and> (\<forall>e. ?h ?vis ?v = Inl e \<longrightarrow> fst ?R = Inl e)
      \<and> (\<forall>vs. ?h ?vis ?v = Inr vs \<longrightarrow>
             (\<exists>y outs. fst ?R = Inr (y, outp @ outs)
                \<and> (\<forall>c \<in> set outs. c < length (store (snd ?R)))
                \<and> map (\<lambda>c. store (snd ?R) ! c) outs = vs))"
      using split
    proof (elim disjE exE conjE)
      fix e
      assume fe: "f ?vis ?v = Inl e" and R: "?R = (Inl e, snd (L x st))"
      have h: "?h ?vis ?v = Inl e" using fe by (simp add: and_then_def)
      show ?thesis
        unfolding R h fst_conv snd_conv using Lx(1,2) by blast
    next
      fix y b
      assume fy: "f ?vis ?v = Inr y" and b: "b < length (store (snd (L x st)))"
        and yb: "store (snd (L x st)) ! b = y"
        and R: "?R = ?G b (outp @ [b]) (snd (L x st))"
      let ?st1 = "snd (L x st)"
      let ?R' = "?G b (outp @ [b]) ?st1"
      from g b have G: "extends ?st1 (snd ?R')"
        "\<not> mode \<longrightarrow> buffers (snd ?R') = buffers ?st1"
        "\<forall>e. g (visible mode (buffers ?st1)) (store ?st1 ! b) = Inl e \<longrightarrow> fst ?R' = Inl e"
        "\<forall>vs. g (visible mode (buffers ?st1)) (store ?st1 ! b) = Inr vs \<longrightarrow>
             (\<exists>y outs. fst ?R' = Inr (y, (outp @ [b]) @ outs)
                \<and> (\<forall>c \<in> set outs. c < length (store (snd ?R')))
                \<and> map (\<lambda>c. store (snd ?R') ! c) outs = vs)"
        unfolding computes_list_def by blast+
      have ext: "extends st (snd ?R')" using Lx(1) G(1) by (rule extends_trans)
      have buf: "\<not> mode \<longrightarrow> buffers (snd ?R') = buffers st" using Lx(2) G(2) by simp
      have err: "fst ?R' = Inl e" if "?h ?vis ?v = Inl e" for e
        using that fy G(3) vis yb by (auto simp: and_then_def split: sum.splits)
      have val: "\<exists>y' outs. fst ?R' = Inr (y', outp @ outs)
                \<and> (\<forall>c \<in> set outs. c < length (store (snd ?R')))
                \<and> map (\<lambda>c. store (snd ?R') ! c) outs = vs" if "?h ?vis ?v = Inr vs" for vs
      proof -
        from that fy obtain vs' where vs': "g ?vis y = Inr vs'" "vs = y # vs'"
          by (auto simp: and_then_def split: sum.splits)
        with G(4) vis yb obtain y' outs where o: "fst ?R' = Inr (y', (outp @ [b]) @ outs)"
          "\<forall>c \<in> set outs. c < length (store (snd ?R'))"
          "map (\<lambda>c. store (snd ?R') ! c) outs = vs'"
          by auto
        have "b < length (store (snd ?R'))" using b extends_length [OF G(1)] by simp
        moreover have "store (snd ?R') ! b = y" using extends_nth [OF G(1) b] yb by simp
        ultimately have "fst ?R' = Inr (y', outp @ (b # outs))
            \<and> (\<forall>c \<in> set (b # outs). c < length (store (snd ?R')))
            \<and> map (\<lambda>c. store (snd ?R') ! c) (b # outs) = vs"
          using o vs'(2) by simp
        then show ?thesis by blast
      qed
      from ext buf err val show ?thesis unfolding R by blast
    qed
  qed
  show ?case
    by (rule exI) (rule step)
qed

lemma OSA_layers_run_record:
  "OSA_layers_run K params mode path ls i =
     record_run (map (\<lambda>(j, l). Sequential_run (module_run K params mode)
                                  (path @ [''layers'', str j]) l)
                   (zip [i..<i + length ls] ls))"
proof (induction ls arbitrary: i)
  case Nil
  show ?case by (intro ext) simp
next
  case (Cons l ls)
  have "[i..<i + Suc (length ls)] = i # [Suc i..<i + Suc (length ls)]"
    by (rule upt_conv_Cons) simp
  then have idx: "[i..<i + length (l # ls)] = i # [Suc i..<Suc i + length ls]"
    by simp
  show ?case
    unfolding idx by (intro ext) (simp add: Cons.IH [of "Suc i"])
qed

lemma OSA_layers_run_computes:
  fixes K :: "('v, 'w, 's) runtime"
  assumes "\<forall>l \<in> set ls. \<forall>p. functional mode (Sequential_run (module_run K params mode) p l)"
  shows "\<exists>g. computes_list mode (OSA_layers_run K params mode path ls i) g"
  unfolding OSA_layers_run_record
proof (rule record_run_computes)
  show "\<forall>F \<in> set (map (\<lambda>(j, l). Sequential_run (module_run K params mode)
                                  (path @ [''layers'', str j]) l)
                   (zip [i..<i + length ls] ls)). functional mode F"
    using assms by (auto dest: set_zip_rightD)
qed

lemma then_run_fst_Inr: "fst r = Inr b \<Longrightarrow> then_run r f = f b (snd r)"
  by (simp add: then_run_def)

lemma then_run_fst_Inl: "fst r = Inl e \<Longrightarrow> then_run r f = (Inl e, snd r)"
  by (simp add: then_run_def)

lemma visible_cong:
  "(\<not> mode \<Longrightarrow> bufs' = bufs) \<Longrightarrow> visible mode bufs' = visible mode bufs"
  by (cases mode) (simp_all add: visible_def)

lemma functional_OSA_module:
  fixes K :: "('v, 'w, 's) runtime"
  shows "functional mode
    (OSA_module_run K params mode path (OSA_module_init in_ch stage_ch concat_ch L name ident))"
proof -
  let ?m = "OSA_module_init in_ch stage_ch concat_ch L name ident"
  let ?C = "Sequential_run (module_run K params mode) (path @ [''concat'']) (concat_seq ?m)"
  have "\<forall>l \<in> set (layers ?m). \<forall>p.
      functional mode (Sequential_run (module_run K params mode) p l)"
    by (auto simp: OSA_module_init_layers functional_conv3x3)
  from OSA_layers_run_computes [OF this, of path 0]
  obtain g where g: "computes_list mode (OSA_layers_run K params mode path (layers ?m) 0) g"
    by blast
  have "functional mode ?C"
    by (simp add: OSA_module_init_concat functional_conv1x1)
  then obtain fc where fc: "computes mode ?C fc"
    unfolding functional_def by blast
  define f where "f = (\<lambda>vis v.
      and_then (g vis v) (\<lambda>vs.
      and_then (cat K (v # vs)) (\<lambda>c.
      and_then (fc vis c) (\<lambda>xt.
      if ident then add K xt v else Inr xt))))"
  have comp: "computes mode (OSA_module_run K params mode path ?m) f"
    unfolding computes_def
  proof (intro allI impI)
    fix x and st :: "('v, 's) state"
    assume x: "x < length (store st)"
    let ?v = "store st ! x" and ?vis = "visible mode (buffers st)"
    let ?R1 = "OSA_layers_run K params mode path (layers ?m) 0 x [x] st"
    let ?st1 = "snd ?R1"
    let ?M = "OSA_module_run K params mode path ?m x st"
    let ?P = "\<lambda>M. extends st (snd M) \<and> (\<not> mode \<longrightarrow> buffers (snd M) = buffers st)
      \<and> (\<forall>e. f ?vis ?v = Inl e \<longrightarrow> fst M = Inl e)
      \<and> (\<forall>z. f ?vis ?v = Inr z \<longrightarrow>
            (\<exists>b. fst M = Inr b \<and> b < length (store (snd M)) \<and> store (snd M) ! b = z))"
    from g x have G: "extends st ?st1" "\<not> mode \<longrightarrow> buffers ?st1 = buffers st"
      "\<forall>e. g ?vis ?v = Inl e \<longrightarrow> fst ?R1 = Inl e"
      "\<forall>vs. g ?vis ?v = Inr vs \<longrightarrow>
         (\<exists>y outs. fst ?R1 = Inr (y, [x] @ outs)
            \<and> (\<forall>c \<in> set outs. c < length (store ?st1))
            \<and> map (\<lambda>c. store ?st1 ! c) outs = vs)"
      unfolding computes_list_def by blast+
    have idt: "identity ?m = ident" by (simp add: OSA_module_init_identity)
    show "?P ?M"
    proof (cases "g ?vis ?v")
      case (Inl e)
      with G(3) have "fst ?R1 = Inl e" by simp
      then have M: "?M = (Inl e, ?st1)"
        by (simp add: OSA_module_run_def then_run_def Let_def)
      have "f ?vis ?v = Inl e" using Inl by (simp add: f_def and_then_def)
      then show ?thesis unfolding M using G(1,2) by simp
    next
      case (Inr vs)
      with G(4) obtain y outs where R1: "fst ?R1 = Inr (y, x # outs)"
        and valid: "\<forall>c \<in> set outs. c < length (store ?st1)"
        and vs: "map (\<lambda>c. store ?st1 ! c) outs = vs"
        by auto
      have x1: "x < length (store ?st1)" "store ?st1 ! x = ?v"
        using extends_length [OF G(1)] extends_nth [OF G(1) x] x by simp_all
      have vals: "map (\<lambda>c. store ?st1 ! c) (x # outs) = ?v # vs"
        using vs x1(2) by simp
      let ?tail = "\<lambda>xt st3. if identity ?m
          then new_cell (add K (store st3 ! xt) (store st3 ! x)) st3 else (Inr xt, st3)"
      have M0: "?M = then_run ?R1 (\<lambda>(y, output) st1.
          then_run (new_cell (cat K (map (\<lambda>c. store st1 ! c) output)) st1)
            (\<lambda>c st2. then_run (?C c st2) ?tail))"
        by (simp add: OSA_module_run_def Let_def)
      have M1: "?M = then_run (new_cell (cat K (?v # vs)) ?st1)
          (\<lambda>c st2. then_run (?C c st2) ?tail)"
        by (simp only: M0 then_run_fst_Inr [OF R1] prod.case vals)
      show ?thesis
      proof (cases "cat K (?v # vs)")
        case (Inl e)
        then have M: "?M = (Inl e, ?st1)" unfolding M1 by simp
        have "f ?vis ?v = Inl e"
          using Inr Inl by (simp add: f_def and_then_def)
        then show ?thesis unfolding M using G(1,2) by simp
      next
        case c: (Inr c)
        let ?n = "length (store ?st1)"
        let ?st2 = "?st1\<lparr>store := store ?st1 @ [c]\<rparr>"
        let ?R3 = "?C ?n ?st2"
        let ?st3 = "snd ?R3"
        have M2: "?M = then_run ?R3 ?tail" unfolding M1 c by simp
        have n: "?n < length (store ?st2)" by simp
        have e12: "extends ?st1 ?st2" by (simp add: extends_def)
        note C = computesD [OF fc n]
        have vis2: "visible mode (buffers ?st2) = ?vis"
          using G(2) by (intro visible_cong) simp
        have e3: "extends st ?st3"
          using G(1) e12 C(1) by (blast intro: extends_trans)
        have b3: "\<not> mode \<longrightarrow> buffers ?st3 = buffers st"
          using C(2) G(2) by simp
        have x3: "store ?st3 ! x = ?v" using extends_nth [OF e3 x] .
        show ?thesis
        proof (cases "fc ?vis c")
          case (Inl e)
          with C(3) [of e] vis2 have "fst ?R3 = Inl e" by simp
          then have M: "?M = (Inl e, ?st3)" unfolding M2 by (rule then_run_fst_Inl)
          have "f ?vis ?v = Inl e"
            using Inr c Inl by (simp add: f_def and_then_def)
          then show ?thesis unfolding M using e3 b3 by simp
        next
          case xt: (Inr xt)
          with C(4) [of xt] vis2 obtain b where b: "fst ?R3 = Inr b"
            "b < length (store ?st3)" "store ?st3 ! b = xt" by auto
          have M3: "?M = (if ident then new_cell (add K xt ?v) ?st3 else (Inr b, ?st3))"
            by (simp only: M2 then_run_fst_Inr [OF b(1)] b(3) x3 idt)
          have fv: "f ?vis ?v = (if ident then add K xt ?v else Inr xt)"
            using Inr c xt by (simp add: f_def and_then_def)
          show ?thesis
          proof (cases ident)
            case False
            then show ?thesis unfolding M3 fv using e3 b3 b(2,3) by simp
          next
            case True
            show ?thesis
            proof (cases "add K xt ?v")
              case (Inl e)
              then show ?thesis unfolding M3 fv using True e3 b3 by simp
            next
              case z: (Inr z)
              have "extends st (?st3\<lparr>store := store ?st3 @ [z]\<rparr>)"
                using e3 by (auto simp: extends_def)
              then show ?thesis unfolding M3 fv using True z b3 by simp
            qed
          qed
        qed
      qed
    qed
  qed
  show ?thesis unfolding functional_def by (rule exI) (rule comp)
qed

lemma computes_return: "computes mode (\<lambda>a st. (Inr a, st)) (\<lambda>vis v. Inr v)"
  by (rule computesI) simp_all

lemma functional_Sequential:
  assumes "\<forall>c \<in> set cs. \<forall>p. functional mode (f p (snd c))"
  shows "functional mode (Sequential_run f path cs)"
  using assms
proof (induction cs)
  case Nil
  show ?case
    unfolding Sequential_run_Nil functional_def by (rule exI) (rule computes_return)
next
  case (Cons c cs)
  from Cons.prems have "functional mode (f (path @ [fst c]) (snd c))" by simp
  moreover from Cons have "functional mode (Sequential_run f path cs)" by simp
  ultimately show ?case
    unfolding Sequential_run_Cons by (rule functional_then_run)
qed

lemma functional_stage:
  fixes K :: "('v, 'w, 's) runtime"
  shows "functional mode (Sequential_run (child_run K params mode) path
     (OSA_stage_init in_ch stage_ch concat_ch blocks L s))"
proof (rule functional_Sequential, intro ballI allI)
  fix c p
  assume "c \<in> set (OSA_stage_init in_ch stage_ch concat_ch blocks L s)"
  then consider "snd c = Layer (MaxPool2d 3 2 0 True)"
    | i n idt where "snd c = OSA (OSA_module_init i stage_ch concat_ch L n idt)"
    unfolding OSA_stage_init_children by (auto split: if_splits)
  then show "functional mode (child_run K params mode p (snd c))"
  proof cases
    case 1
    have "child_run K params mode p (Layer (MaxPool2d 3 2 0 True)) =
        module_run K params mode p (MaxPool2d 3 2 0 True)"
      by (intro ext) simp
    with computes_MaxPool2d [of mode K params p 3 2 0 True] show ?thesis
      unfolding 1 functional_def by auto
  next
    case 2
    have "child_run K params mode p (OSA m) = OSA_module_run K params mode p m" for m
      by (intro ext) simp
    with functional_OSA_module [of mode K params p] show ?thesis
      unfolding 2 by simp
  qed
qed

lemma feature_dict_4:
  "feature_dict [a, b, c, d] = [''res2'' \<mapsto> a, ''res3'' \<mapsto> b, ''res4'' \<mapsto> c, ''res5'' \<mapsto> d]"
  by (auto simp: feature_dict_def fun_eq_iff)

lemma map_of_zip_map:
  "map_of (zip ks (map f ys)) k = map_option f (map_of (zip ks ys) k)"
proof (induction ks arbitrary: ys)
  case Nil
  show ?case by simp
next
  case (Cons a ks)
  then show ?case by (cases ys) simp_all
qed

lemma feature_dict_map: "feature_dict (map f xs) = (\<lambda>k. map_option f (feature_dict xs k))"
  by (intro ext) (simp add: feature_dict_def map_of_zip_map)

lemma feature_dict_range: "feature_dict xs k = Some b \<Longrightarrow> b \<in> set xs"
  unfolding feature_dict_def by (auto dest!: map_of_SomeD set_zip_rightD)

lemma fetch_simps [simp]:
  "fetch st (Inl e) = Inl e"
  "fetch st (Inr out) = Inr (\<lambda>k. map_option (\<lambda>b. store st ! b) (out k))"
  by (simp_all add: fetch_def)

lemma VoVNet_run_record:
  "VoVNet_run K params M x st =
     then_run (Sequential_run (module_run K params (training M)) [''stem''] (stem M) x st)
       (\<lambda>x0 st0.
          then_run (record_run [call_stage_run K params M ''stage2'',
                                call_stage_run K params M ''stage3'',
                                call_stage_run K params M ''stage4'',
                                call_stage_run K params M ''stage5''] x0 [] st0)
            (\<lambda>r st5. (Inr (feature_dict (snd r)), st5)))"
  unfolding VoVNet_run_def Let_def
  by (simp add: then_run_assoc feature_dict_4)

lemma VoVNet_run_computes:
  fixes K :: "('v, 'w, 's) runtime"
  assumes init: "VoVNet_init cs cc blocks L num_classes = Inr m"
  shows "\<exists>h. \<forall>a (st :: ('v, 's) state). a < length (store st) \<longrightarrow>
      extends st (snd (VoVNet_run K params (train mode m) a st))
    \<and> (\<not> mode \<longrightarrow> buffers (snd (VoVNet_run K params (train mode m) a st)) = buffers st)
    \<and> fetch (snd (VoVNet_run K params (train mode m) a st))
         (fst (VoVNet_run K params (train mode m) a st))
       = h (visible mode (buffers st)) (store st ! a)
    \<and> (\<forall>out k b. fst (VoVNet_run K params (train mode m) a st) = Inr out \<longrightarrow>
          out k = Some b \<longrightarrow> b < length (store (snd (VoVNet_run K params (train mode m) a st))))"
proof -
  let ?M = "train mode m"
  from VoVNet_init_lengths [OF init]
  have len: "4 \<le> length cs" "4 \<le> length cc" "4 \<le> length blocks" by simp_all
  from init VoVNet_init_ok [OF len, of L num_classes]
  have m: "m = \<lparr> stem = stem_modules,
           stage_names = [''stage2'', ''stage3'', ''stage4'', ''stage5''],
           stages =
             [(''stage2'', OSA_stage_init 128 (cs ! 0) (cc ! 0) (blocks ! 0) L 2),
              (''stage3'', OSA_stage_init (cc ! 0) (cs ! 1) (cc ! 1) (blocks ! 1) L 3),
              (''stage4'', OSA_stage_init (cc ! 1) (cs ! 2) (cc ! 2) (blocks ! 2) L 4),
              (''stage5'', OSA_stage_init (cc ! 2) (cs ! 3) (cc ! 3) (blocks ! 3) L 5)],
           classifier = (last cc, num_classes),
           training = True \<rparr>"
    by simp
  have M: "training ?M = mode" "stem ?M = stem_modules"
    by (simp_all add: m train_def)
  have st2: "call_stage_run K params ?M ''stage2'' =
      Sequential_run (child_run K params mode) [''stage2'']
        (OSA_stage_init 128 (cs ! 0) (cc ! 0) (blocks ! 0) L 2)"
    by (intro ext) (simp add: call_stage_run_def m train_def)
  have st3: "call_stage_run K params ?M ''stage3'' =
      Sequential_run (child_run K params mode) [''stage3'']
        (OSA_stage_init (cc ! 0) (cs ! 1) (cc ! 1) (blocks ! 1) L 3)"
    by (intro ext) (simp add: call_stage_run_def m train_def)
  have st4: "call_stage_run K params ?M ''stage4'' =
      Sequential_run (child_run K params mode) [''stage4'']
        (OSA_stage_init (cc ! 1) (cs ! 2) (cc ! 2) (blocks ! 2) L 4)"
    by (intro ext) (simp add: call_stage_run_def m train_def)
  have st5: "call_stage_run K params ?M ''stage5'' =
      Sequential_run (child_run K params mode) [''stage5'']
        (OSA_stage_init (cc ! 2) (cs ! 3) (cc ! 3) (blocks ! 3) L 5)"
    by (intro ext) (simp add: call_stage_run_def m train_def)
  let ?F0 = "Sequential_run (module_run K params mode) [''stem''] stem_modules"
  let ?Fs = "[call_stage_run K params ?M ''stage2'', call_stage_run K params ?M ''stage3'',
              call_stage_run K params ?M ''stage4'', call_stage_run K params ?M ''stage5'']"
  obtain f0 where f0: "computes mode ?F0 f0"
    using functional_stem [of mode K params "[''stem'']"] unfolding functional_def by blast
  have "\<forall>F \<in> set ?Fs. functional mode F"
    by (simp add: st2 st3 st4 st5 functional_stage)
  from record_run_computes [OF this]
  obtain g where g: "computes_list mode (record_run ?Fs) g" by blast
  define h where "h = (\<lambda>vis v.
      and_then (f0 vis v) (\<lambda>v0. and_then (g vis v0) (\<lambda>vs. Inr (feature_dict vs))))"
  have run: "VoVNet_run K params ?M a st =
      then_run (?F0 a st)
        (\<lambda>x0 st0. then_run (record_run ?Fs x0 [] st0)
           (\<lambda>r st5. (Inr (feature_dict (snd r)), st5)))" for a and st :: "('v, 's) state"
    unfolding VoVNet_run_record M ..
  have main: "extends st (snd (VoVNet_run K params ?M a st))
    \<and> (\<not> mode \<longrightarrow> buffers (snd (VoVNet_run K params ?M a st)) = buffers st)
    \<and> fetch (snd (VoVNet_run K params ?M a st)) (fst (VoVNet_run K params ?M a st))
       = h (visible mode (buffers st)) (store st ! a)
    \<and> (\<forall>out k b. fst (VoVNet_run K params ?M a st) = Inr out \<longrightarrow>
          out k = Some b \<longrightarrow> b < length (store (snd (VoVNet_run K params ?M a st))))"
    if a: "a < length (store st)" for a and st :: "('v, 's) state"
  proof -
    let ?v = "store st ! a" and ?vis = "visible mode (buffers st)"
    let ?st0 = "snd (?F0 a st)"
    note F = computesD [OF f0 a]
    note vis0 = computes_visible [OF f0 a]
    show ?thesis
    proof (cases "f0 ?vis ?v")
      case (Inl e)
      with F(3) have "fst (?F0 a st) = Inl e" by simp
      then have R: "VoVNet_run K params ?M a st = (Inl e, ?st0)"
        unfolding run by (rule then_run_fst_Inl)
      have "h ?vis ?v = Inl e" using Inl by (simp add: h_def and_then_def)
      then show ?thesis unfolding R using F(1,2) by simp
    next
      case v0: (Inr v0)
      with F(4) obtain b where b: "fst (?F0 a st) = Inr b" "b < length (store ?st0)"
        "store ?st0 ! b = v0" by blast
      let ?R5 = "record_run ?Fs b [] ?st0"
      let ?st5 = "snd ?R5"
      have R1: "VoVNet_run K params ?M a st =
          then_run ?R5 (\<lambda>r st5. (Inr (feature_dict (snd r)), st5))"
        unfolding run by (simp only: then_run_fst_Inr [OF b(1)])
      from g b(2) have G: "extends ?st0 ?st5" "\<not> mode \<longrightarrow> buffers ?st5 = buffers ?st0"
        "\<forall>e. g (visible mode (buffers ?st0)) (store ?st0 ! b) = Inl e \<longrightarrow> fst ?R5 = Inl e"
        "\<forall>vs. g (visible mode (buffers ?st0)) (store ?st0 ! b) = Inr vs \<longrightarrow>
           (\<exists>y outs. fst ?R5 = Inr (y, [] @ outs)
              \<and> (\<forall>c \<in> set outs. c < length (store ?st5))
              \<and> map (\<lambda>c. store ?st5 ! c) outs = vs)"
        unfolding computes_list_def by blast+
      have e5: "extends st ?st5" using F(1) G(1) by (rule extends_trans)
      have b5: "\<not> mode \<longrightarrow> buffers ?st5 = buffers st" using F(2) G(2) by simp
      show ?thesis
      proof (cases "g ?vis v0")
        case (Inl e)
        with G(3) vis0 b(3) have "fst ?R5 = Inl e" by simp
        then have R: "VoVNet_run K params ?M a st = (Inl e, ?st5)"
          unfolding R1 by (rule then_run_fst_Inl)
        have "h ?vis ?v = Inl e" using v0 Inl by (simp add: h_def and_then_def)
        then show ?thesis unfolding R using e5 b5 by simp
      next
        case vs: (Inr vs)
        with G(4) vis0 b(3) obtain y outs where o: "fst ?R5 = Inr (y, outs)"
          "\<forall>c \<in> set outs. c < length (store ?st5)"
          "map (\<lambda>c. store ?st5 ! c) outs = vs"
          by auto
        have R: "VoVNet_run K params ?M a st = (Inr (feature_dict outs), ?st5)"
          unfolding R1 by (simp only: then_run_fst_Inr [OF o(1)] snd_conv)
        have hv: "h ?vis ?v = Inr (feature_dict vs)"
          using v0 vs by (simp add: h_def and_then_def)
        have fd: "(\<lambda>k. map_option (\<lambda>c. store ?st5 ! c) (feature_dict outs k)) = feature_dict vs"
          using feature_dict_map [of "\<lambda>c. store ?st5 ! c" outs] o(3) by simp
        have valid: "c < length (store ?st5)" if "feature_dict outs k = Some c" for k c
          using feature_dict_range [OF that] o(2) by blast
        show ?thesis
          unfolding R hv using e5 b5 fd valid by simp
      qed
    qed
  qed
  show ?thesis
    by (rule exI [of _ h]) (use main in blast)
qed

lemma fetch_extends:
  assumes "extends st st'"
    and "\<forall>out k b. r = Inr out \<longrightarrow> out k = Some b \<longrightarrow> b < length (store st)"
  shows "fetch st' r = fetch st r"
proof (cases r)
  case (Inl e)
  then show ?thesis by simp
next
  case (Inr out)
  have "map_option (\<lambda>b. store st' ! b) (out k) = map_option (\<lambda>b. store st ! b) (out k)" for k
  proof (cases "out k")
    case None
    then show ?thesis by simp
  next
    case (Some b)
    with assms(2) Inr have "b < length (store st)" by blast
    with extends_nth [OF assms(1)] Some show ?thesis by simp
  qed
  with Inr show ?thesis by simp
qed

text \<open>
  Claim C9, for the part of it that is this repository's: what the forward pass does with
  the tensors it is given and with the state of its modules. The operations of the tensor
  runtime are functions of the values they read, the parameters \<open>params\<close> are the same
  in both evaluations. Then, for every backbone that \<^verbatim>\<open>VoVNet.__init__\<close> constructs,
  whether it is being trained or not, for every such runtime, every state of the store
  and of the running statistics, and every input tensor: a second evaluation of the
  forward pass on the same input tensor, in the state that the first one leaves, returns
  under every key the same value as the first (or raises the same exception); the tensors
  that the first evaluation returned are not changed by the second, and the input tensor
  is not changed at all.
\<close>

theorem forward_deterministic:
  fixes K :: "('v, 'w, 's) runtime" and st :: "('v, 's) state"
  assumes "VoVNet_init cs cc blocks L num_classes = Inr m"
    and "a < length (store st)"
  shows "case VoVNet_run K params (train mode m) a st of (r1, st1) \<Rightarrow>
          (case VoVNet_run K params (train mode m) a st1 of (r2, st2) \<Rightarrow>
             fetch st2 r2 = fetch st1 r1
           \<and> fetch st2 r1 = fetch st1 r1
           \<and> store st1 ! a = store st ! a)"
proof -
  let ?run = "VoVNet_run K params (train mode m) a"
  from VoVNet_run_computes [OF assms(1), of K params mode]
  obtain h where h: "\<And>a (st :: ('v, 's) state). a < length (store st) \<Longrightarrow>
      extends st (snd (VoVNet_run K params (train mode m) a st))
    \<and> (\<not> mode \<longrightarrow> buffers (snd (VoVNet_run K params (train mode m) a st)) = buffers st)
    \<and> fetch (snd (VoVNet_run K params (train mode m) a st))
         (fst (VoVNet_run K params (train mode m) a st))
       = h (visible mode (buffers st)) (store st ! a)
    \<and> (\<forall>out k b. fst (VoVNet_run K params (train mode m) a st) = Inr out \<longrightarrow>
          out k = Some b \<longrightarrow> b < length (store (snd (VoVNet_run K params (train mode m) a st))))"
    by blast
  obtain r1 st1 where run1: "?run st = (r1, st1)" by (cases "?run st")
  obtain r2 st2 where run2: "?run st1 = (r2, st2)" by (cases "?run st1")
  from h [OF assms(2), unfolded run1 fst_conv snd_conv]
  have one: "extends st st1" "\<not> mode \<longrightarrow> buffers st1 = buffers st"
    "fetch st1 r1 = h (visible mode (buffers st)) (store st ! a)"
    "\<forall>out k b. r1 = Inr out \<longrightarrow> out k = Some b \<longrightarrow> b < length (store st1)"
    by blast+
  have a1: "a < length (store st1)"
    using extends_length [OF one(1)] assms(2) by simp
  have same: "store st1 ! a = store st ! a"
    using extends_nth [OF one(1) assms(2)] .
  have vis: "visible mode (buffers st1) = visible mode (buffers st)"
    using one(2) by (intro visible_cong) simp
  from h [OF a1, unfolded run2 fst_conv snd_conv]
  have two: "extends st1 st2"
    "fetch st2 r2 = h (visible mode (buffers st1)) (store st1 ! a)"
    by blast+
  have "fetch st2 r2 = fetch st1 r1"
    using two(2) one(3) vis same by simp
  moreover have "fetch st2 r1 = fetch st1 r1"
    using two(1) one(4) by (rule fetch_extends)
  ultimately show ?thesis
    using same by (simp add: run1 run2)
qed

theorem forward_deterministic_witness:
  "VoVNet_init [64, 80, 96, 112] [128, 256, 384, 512] [1, 1, 1, 1] 5 1000
     = Inr \<lparr> stem = stem_modules,
           stage_names = [''stage2'', ''stage3'', ''stage4'', ''stage5''],
           stages =
             [(''stage2'', OSA_stage_init 128 64 128 1 5 2),
              (''stage3'', OSA_stage_init 128 80 256 1 5 3),
              (''stage4'', OSA_stage_init 256 96 384 1 5 4),
              (''stage5'', OSA_stage_init 384 112 512 1 5 5)],
           classifier = (512, 1000),
           training = True \<rparr>
   \<and> (0::nat) < length (store \<lparr>store = [5::int], buffers = (\<lambda>path. 0::int)\<rparr>)
   \<and> (case VoVNet_run
             \<lparr> conv2d = (\<lambda>m w v. Inr (w * v + 1)),
               batch_norm_batch = (\<lambda>m w v. Inr (v - w)),
               batch_norm_running = (\<lambda>m w s v. Inr (v - s)),
               count_batch = (\<lambda>s. s + 1),
               update_stats = (\<lambda>s v. s + v),
               relu = (\<lambda>v. max 0 v),
               max_pool2d = (\<lambda>m v. Inr (v div 2)),
               cat = (\<lambda>vs. Inr (sum_list vs)),
               add = (\<lambda>x y. Inr (x + y)) \<rparr>
             (\<lambda>path. 2::int)
             (train True
               \<lparr> stem = stem_modules,
                 stage_names = [''stage2'', ''stage3'', ''stage4'', ''stage5''],
                 stages =
                   [(''stage2'', OSA_stage_init 128 64 128 1 5 2),
                    (''stage3'', OSA_stage_init 128 80 256 1 5 3),
                    (''stage4'', OSA_stage_init 256 96 384 1 5 4),
                    (''stage5'', OSA_stage_init 384 112 512 1 5 5)],
                 classifier = (512, 1000),
                 training = True \<rparr>)
             0 \<lparr>store = [5::int], buffers = (\<lambda>path. 0::int)\<rparr> of
         (r1, st1) \<Rightarrow>
           (case VoVNet_run
                   \<lparr> conv2d = (\<lambda>m w v. Inr (w * v + 1)),
                     batch_norm_batch = (\<lambda>m w v. Inr (v - w)),
                     batch_norm_running = (\<lambda>m w s v. Inr (v - s)),
                     count_batch = (\<lambda>s. s + 1),
                     update_stats = (\<lambda>s v. s + v),
                     relu = (\<lambda>v. max 0 v),
                     max_pool2d = (\<lambda>m v. Inr (v div 2)),
                     cat = (\<lambda>vs. Inr (sum_list vs)),
                     add = (\<lambda>x y. Inr (x + y)) \<rparr>
                   (\<lambda>path. 2::int)
                   (train True
                     \<lparr> stem = stem_modules,
                       stage_names = [''stage2'', ''stage3'', ''stage4'', ''stage5''],
                       stages =
                         [(''stage2'', OSA_stage_init 128 64 128 1 5 2),
                          (''stage3'', OSA_stage_init 128 80 256 1 5 3),
                          (''stage4'', OSA_stage_init 256 96 384 1 5 4),
                          (''stage5'', OSA_stage_init 384 112 512 1 5 5)],
                       classifier = (512, 1000),
                       training = True \<rparr>)
                   0 st1 of
              (r2, st2) \<Rightarrow> fetch st2 r2 = fetch st1 r1 \<and> fetch st2 r1 = fetch st1 r1
                \<and> store st1 ! 0 = store \<lparr>store = [5::int], buffers = (\<lambda>path. 0::int)\<rparr> ! 0))"
proof -
  have init: "VoVNet_init [64, 80, 96, 112] [128, 256, 384, 512] [1, 1, 1, 1] 5 1000
     = Inr \<lparr> stem = stem_modules,
           stage_names = [''stage2'', ''stage3'', ''stage4'', ''stage5''],
           stages =
             [(''stage2'', OSA_stage_init 128 64 128 1 5 2),
              (''stage3'', OSA_stage_init 128 80 256 1 5 3),
              (''stage4'', OSA_stage_init 256 96 384 1 5 4),
              (''stage5'', OSA_stage_init 384 112 512 1 5 5)],
           classifier = (512, 1000),
           training = True \<rparr>"
    using VoVNet_init_ok [of "[64, 80, 96, 112]" "[128, 256, 384, 512]" "[1, 1, 1, 1]" 5 1000]
    by simp
  have valid: "(0::nat) < length (store \<lparr>store = [5::int], buffers = (\<lambda>path. 0::int)\<rparr>)"
    by simp
  note run = forward_deterministic [OF init valid,
      where K = "\<lparr> conv2d = (\<lambda>m w v. Inr (w * v + 1)),
               batch_norm_batch = (\<lambda>m w v. Inr (v - w)),
               batch_norm_running = (\<lambda>m w s v. Inr (v - s)),
               count_batch = (\<lambda>s. s + 1),
               update_stats = (\<lambda>s v. s + v),
               relu = (\<lambda>v. max 0 v),
               max_pool2d = (\<lambda>m v. Inr (v div 2)),
               cat = (\<lambda>vs. Inr (sum_list vs)),
               add = (\<lambda>x y. Inr (x + y)) \<rparr>"
        and params = "\<lambda>path. 2::int" and mode = True]
  show ?thesis
    by (rule conjI [OF init conjI [OF valid run]])
qed

end
